theory Spec2Isabelle
  imports Complex_Main "HOL-Library.AList"
begin

section \<open>Errors and tensors\<close>

text \<open>
  The exceptions the modelled code can raise. \<open>CudaError\<close> is what a \<open>.cuda()\<close> call
  raises on a host without a CUDA device; \<open>StrictKeyError\<close> is what
  \<open>load_state_dict\<close> raises under strict matching.
\<close>

datatype error =
    IndexError
  | KeyError
  | TypeError
  | ZeroDivisionError
  | CudaError
  | StrictKeyError
  | FileNotFoundError

text \<open>
  A two-dimensional tensor: its shape (\<open>size(0)\<close>, \<open>size(1)\<close>) and its elements.
  Only the positions inside the shape are meaningful.
\<close>

record 'a tensor =
  size0 :: nat
  size1 :: nat
  entry :: "nat \<Rightarrow> nat \<Rightarrow> 'a"

text \<open>\<open>targets.transpose(0,1)\<close>\<close>

definition transpose_t :: "'a tensor \<Rightarrow> 'a tensor" where
  "transpose_t t = \<lparr>size0 = size1 t, size1 = size0 t, entry = (\<lambda>i j. entry t j i)\<rparr>"

text \<open>Iterating over a tensor yields its rows along dimension 0.\<close>

definition row :: "'a tensor \<Rightarrow> nat \<Rightarrow> 'a list" where
  "row t i = map (entry t i) [0..<size1 t]"

definition rows :: "'a tensor \<Rightarrow> 'a list list" where
  "rows t = map (row t) [0..<size0 t]"

text \<open>A tensor from a rectangular list of rows with the given shape.\<close>

definition of_rows :: "nat \<Rightarrow> nat \<Rightarrow> 'a list list \<Rightarrow> 'a tensor" where
  "of_rows n m xss = \<lparr>size0 = n, size1 = m, entry = (\<lambda>i j. xss ! i ! j)\<rparr>"

text \<open>\<open>torch.ones(targets.size()).type(torch.ByteTensor)\<close>\<close>

definition ones :: "'a tensor \<Rightarrow> bool tensor" where
  "ones targets = \<lparr>size0 = size0 targets, size1 = size1 targets, entry = (\<lambda>i j. True)\<rparr>"

text \<open>
  \<open>x.cuda()\<close>: moves \<open>x\<close> to the CUDA device, and raises when the host has none.
  The first argument is \<open>torch.cuda.is_available()\<close>.
\<close>

definition cuda :: "bool \<Rightarrow> 'a \<Rightarrow> error + 'a" where
  "cuda cuda_available x = (if cuda_available then Inr x else Inl CudaError)"

section \<open>Mask construction\<close>

text \<open>
  The loop of \<open>create_mask\<close> over \<open>enumerate(sequence_lengths)\<close>. The assignments
  \<open>mask.data[i, l:] = 0\<close> and \<open>mask.data[l:, i] = 0\<close> index dimension 0 resp. 1 with
  \<open>i\<close>, which raises when \<open>i\<close> is out of range. Sequence lengths are lengths,
  hence natural numbers.
\<close>

fun mask_loop :: "bool \<Rightarrow> 'a tensor \<Rightarrow> (nat \<times> nat) list \<Rightarrow> bool tensor \<Rightarrow> error + bool tensor" where
  "mask_loop batch_first targets [] msk = Inr msk"
| "mask_loop batch_first targets ((i, l) # rest) msk =
     (if batch_first then
        (if l < size1 targets then
           (if i < size0 msk
            then mask_loop batch_first targets rest
                   (msk\<lparr>entry := (\<lambda>r c. if r = i \<and> l \<le> c then False else entry msk r c)\<rparr>)
            else Inl IndexError)
         else mask_loop batch_first targets rest msk)
      else
        (if l < size0 targets then
           (if i < size1 msk
            then mask_loop batch_first targets rest
                   (msk\<lparr>entry := (\<lambda>r c. if l \<le> r \<and> c = i then False else entry msk r c)\<rparr>)
            else Inl IndexError)
         else mask_loop batch_first targets rest msk))"

definition create_mask :: "bool \<Rightarrow> nat list \<Rightarrow> 'a tensor \<Rightarrow> bool \<Rightarrow> error + bool tensor" where
  "create_mask cuda_available sequence_lengths targets batch_first =
     (case cuda cuda_available (ones targets) of
        Inl e \<Rightarrow> Inl e
      | Inr msk \<Rightarrow> mask_loop batch_first targets (enumerate 0 sequence_lengths) msk)"


text \<open>
  The same function on a store of objects, to say what it writes. An address is an
  index into the store; \<open>torch.ones\<close> allocates the mask at a fresh address, and every
  assignment of the loop goes through the reference \<open>mask\<close>. The arguments are the
  addresses of the list of lengths and of the target tensor.
\<close>

datatype obj = IntList "nat list" | LongTensor "nat tensor" | ByteTensor "bool tensor"

fun mask_loop_ref :: "bool \<Rightarrow> nat tensor \<Rightarrow> (nat \<times> nat) list \<Rightarrow> nat \<Rightarrow> obj list \<Rightarrow> error + obj list" where
  "mask_loop_ref batch_first targets [] p h = Inr h"
| "mask_loop_ref batch_first targets ((i, l) # rest) p h =
     (case h ! p of
        ByteTensor msk \<Rightarrow>
          (if batch_first then
             (if l < size1 targets then
                (if i < size0 msk
                 then mask_loop_ref batch_first targets rest p
                        (h[p := ByteTensor
                             (msk\<lparr>entry := (\<lambda>r c. if r = i \<and> l \<le> c then False else entry msk r c)\<rparr>)])
                 else Inl IndexError)
              else mask_loop_ref batch_first targets rest p h)
           else
             (if l < size0 targets then
                (if i < size1 msk
                 then mask_loop_ref batch_first targets rest p
                        (h[p := ByteTensor
                             (msk\<lparr>entry := (\<lambda>r c. if l \<le> r \<and> c = i then False else entry msk r c)\<rparr>)])
                 else Inl IndexError)
              else mask_loop_ref batch_first targets rest p h))
      | _ \<Rightarrow> Inl TypeError)"

definition create_mask_ref :: "bool \<Rightarrow> nat \<Rightarrow> nat \<Rightarrow> bool \<Rightarrow> obj list \<Rightarrow> error + (nat \<times> obj list)" where
  "create_mask_ref cuda_available p_lengths p_targets batch_first h =
     (if p_lengths < length h \<and> p_targets < length h then
        (case (h ! p_lengths, h ! p_targets) of
           (IntList sequence_lengths, LongTensor targets) \<Rightarrow>
             (case cuda cuda_available (ones targets) of
                Inl e \<Rightarrow> Inl e
              | Inr msk \<Rightarrow>
                  (case mask_loop_ref batch_first targets (enumerate 0 sequence_lengths)
                          (length h) (h @ [ByteTensor msk]) of
                     Inl e \<Rightarrow> Inl e
                   | Inr h' \<Rightarrow> Inr (length h, h')))
         | _ \<Rightarrow> Inl TypeError)
      else Inl TypeError)"

section \<open>Truncating the gold labels\<close>

text \<open>
  \<open>mask_targets\<close>: after the optional transpose, \<open>zip(targets, sequence_lengths)\<close>
  pairs every row with its length (and stops at the shorter of the two), and
  \<open>l[:p]\<close> keeps the first \<open>p\<close> entries of the row.
\<close>

definition mask_targets :: "'a tensor \<Rightarrow> nat list \<Rightarrow> bool \<Rightarrow> 'a list list" where
  "mask_targets targets sequence_lengths batch_first =
     (let targets' = (if \<not> batch_first then transpose_t targets else targets)
      in map (\<lambda>(l, p). take p l) (zip (rows targets') sequence_lengths))"

section \<open>Evaluation bookkeeping\<close>

text \<open>The accumulators of \<open>NERLearner.test\<close>.\<close>

record eval_acc =
  accs :: "bool list"
  test_loss :: real
  correct_preds :: nat
  total_correct :: nat
  total_preds :: nat
  total_step :: "nat option"

definition eval_acc0 :: eval_acc where
  "eval_acc0 = \<lparr>accs = [], test_loss = 0, correct_preds = 0, total_correct = 0,
                 total_preds = 0, total_step = None\<rparr>"

text \<open>
  The body of \<open>for lab, lab_pred in zip(masked_targets, predictions)\<close>. The chunk
  extractor \<open>get_chunks\<close> (with the tag vocabulary applied) lives in
  \<open>data_utils\<close> and is a parameter here.
\<close>

definition eval_sample :: "(nat list \<Rightarrow> 'k list) \<Rightarrow> eval_acc \<Rightarrow> nat list \<times> nat list \<Rightarrow> eval_acc" where
  "eval_sample get_chunks st lp =
     (case lp of (lab, lab_pred) \<Rightarrow>
        (let lab_chunks = set (get_chunks lab);
             lab_pred_chunks = set (get_chunks lab_pred)
         in st\<lparr>accs := accs st @ map (\<lambda>(a, b). a = b) (zip lab lab_pred),
                correct_preds := correct_preds st + card (lab_chunks \<inter> lab_pred_chunks),
                total_preds := total_preds st + card lab_pred_chunks,
                total_correct := total_correct st + card lab_chunks\<rparr>))"

definition eval_samples :: "(nat list \<Rightarrow> 'k list) \<Rightarrow> eval_acc \<Rightarrow> nat list list \<Rightarrow> nat list list \<Rightarrow> eval_acc" where
  "eval_samples get_chunks st masked_targets predictions =
     foldl (eval_sample get_chunks) st (zip masked_targets predictions)"

text \<open>
  Python's true division of two integers: the quotient as a float, or
  \<open>ZeroDivisionError\<close>. Floats are modelled by exact reals.
\<close>

definition py_truediv :: "real \<Rightarrow> real \<Rightarrow> error + real" where
  "py_truediv a b = (if b = 0 then Inl ZeroDivisionError else Inr (a / b))"

text \<open>The three conditional expressions \<open>p\<close>, \<open>r\<close>, \<open>f1\<close> at the end of \<open>test\<close>.\<close>

definition final_scores :: "nat \<Rightarrow> nat \<Rightarrow> nat \<Rightarrow> error + (real \<times> real \<times> real)" where
  "final_scores cp tp tc =
     (case (if cp > 0 then py_truediv (real cp) (real tp) else Inr 0) of
        Inl e \<Rightarrow> Inl e
      | Inr p \<Rightarrow>
          (case (if cp > 0 then py_truediv (real cp) (real tc) else Inr 0) of
             Inl e \<Rightarrow> Inl e
           | Inr r \<Rightarrow>
               (case (if cp > 0 then py_truediv (2 * p * r) (p + r) else Inr 0) of
                  Inl e \<Rightarrow> Inl e
                | Inr f1 \<Rightarrow> Inr (p, r, f1))))"

text \<open>\<open>np.mean(accs)\<close>; \<open>None\<close> stands for the \<open>nan\<close> of an empty list.\<close>

definition np_mean :: "bool list \<Rightarrow> real option" where
  "np_mean bs = (if bs = [] then None
                 else Some (real (length (filter (\<lambda>b. b) bs)) / real (length bs)))"

section \<open>Checkpoint loading\<close>

text \<open>
  A state dict is an ordered dictionary from parameter names to tensors: an
  association list with distinct keys. \<open>sd[k] = v\<close> is \<open>AList.update\<close>,
  \<open>del sd[k]\<close> is \<open>AList.delete\<close>; reading or deleting an absent key raises
  \<open>KeyError\<close>.
\<close>

type_synonym 'v state_dict = "(string \<times> 'v) list"

definition rename_step :: "string set \<Rightarrow> string \<Rightarrow> 'v state_dict \<Rightarrow> error + 'v state_dict" where
  "rename_step names n sd =
     (if n \<notin> names \<and> n @ ''_raw'' \<in> names then
        (case (if map_of sd (n @ ''_raw'') = None
               then (case map_of sd n of
                       None \<Rightarrow> Inl KeyError
                     | Some v \<Rightarrow> Inr (AList.update (n @ ''_raw'') v sd))
               else Inr sd) of
           Inl e \<Rightarrow> Inl e
         | Inr sd' \<Rightarrow>
             (if map_of sd' n = None then Inl KeyError else Inr (AList.delete n sd')))
      else Inr sd)"

fun rename_loop :: "string set \<Rightarrow> string list \<Rightarrow> 'v state_dict \<Rightarrow> error + 'v state_dict" where
  "rename_loop names [] sd = Inr sd"
| "rename_loop names (n # ns) sd =
     (case rename_step names n sd of
        Inl e \<Rightarrow> Inl e
      | Inr sd' \<Rightarrow> rename_loop names ns sd')"

text \<open>
  Modelled from the spec: \<open>Module.load_state_dict\<close> belongs to the tensor library and
  is not part of the sources. The spec gives its strict mode: the load "fails loudly
  (raises) if, after reconciliation, any live parameter has no matching checkpoint
  entry and strict-matching is requested"; strict matching also refuses a checkpoint
  entry that no live parameter has. The call works on the live module itself
  (\<open>load_ner_model\<close> passes \<open>m\<close> and keeps no copy of its state): every checkpoint
  tensor whose name is live is copied into the parameter, and the names are reported
  after that. The result is the exception, if any, and the live state dict after the
  call.
\<close>

definition load_state_dict :: "'v state_dict \<Rightarrow> 'v state_dict \<Rightarrow> bool \<Rightarrow> error option \<times> 'v state_dict" where
  "load_state_dict own sd strict =
     (let own' = map (\<lambda>(n, v). (n, case map_of sd n of Some v' \<Rightarrow> v' | None \<Rightarrow> v)) own;
          missing = filter (\<lambda>n. map_of sd n = None) (map fst own);
          unexpected = filter (\<lambda>k. k \<notin> set (map fst own)) (map fst sd)
      in (if strict \<and> (missing \<noteq> [] \<or> unexpected \<noteq> []) then Some StrictKeyError else None, own'))"

text \<open>
  \<open>load_ner_model(m, p, strict)\<close>, with \<open>own = m.state_dict()\<close> and \<open>sd\<close> the
  dictionary that \<open>torch.load(p)\<close> returned. The loop runs over a snapshot of the keys.
\<close>

definition load_ner_model :: "'v state_dict \<Rightarrow> 'v state_dict \<Rightarrow> bool \<Rightarrow> error option \<times> 'v state_dict" where
  "load_ner_model own sd strict =
     (let names = set (map fst own) in
      case rename_loop names (map fst sd) sd of
        Inl e \<Rightarrow> (Some e, own)
      | Inr sd' \<Rightarrow> load_state_dict own sd' strict)"

section \<open>Freezing layer groups\<close>

text \<open>
  A layer group, as far as freezing is concerned: a child module and its trainable
  flag. \<open>set_trainable\<close> is the library's setter of that flag.
\<close>

record layer_group =
  group_name :: string
  trainable :: bool

definition set_trainable :: "layer_group \<Rightarrow> bool \<Rightarrow> layer_group" where
  "set_trainable l b = l\<lparr>trainable := b\<rparr>"

text \<open>
  The first index of the Python slice \<open>c[n:]\<close> of a list of length \<open>len\<close>: a negative
  \<open>n\<close> counts from the end, and both ends are clamped.
\<close>

definition slice_start :: "int \<Rightarrow> nat \<Rightarrow> nat" where
  "slice_start n len = (if n < 0 then nat (max 0 (int len + n)) else min (nat n) len)"

definition freeze_to :: "int \<Rightarrow> layer_group list \<Rightarrow> layer_group list" where
  "freeze_to n c =
     (let c1 = map (\<lambda>l. set_trainable l False) c;
          k = slice_start n (length c1)
      in take k c1 @ map (\<lambda>l. set_trainable l True) (drop k c1))"

definition unfreeze :: "layer_group list \<Rightarrow> layer_group list" where
  "unfreeze c = freeze_to 0 c"


section \<open>The learner\<close>

text \<open>
  The configuration object (only the fields that \<open>NERLearner\<close> reads), a batch as the
  generator of \<open>batch_iter\<close> yields it, and the wrapped network: its state dict, its
  training-mode flag, the \<open>requires_grad\<close> flag of \<open>emb.weight\<close> and its child
  modules.
\<close>

record 'v config =
  dir_model :: string
  ner_model_path :: string
  ner_ft_path :: string
  nepochs :: nat
  batch_size :: nat
  use_chars :: bool
  ntags :: nat
  vocab_tags :: "(string \<times> nat) list"
  embeddings :: 'v

record batch =
  word_ids :: "nat tensor"
  char_ids :: "nat list list list option"
  labels :: "nat tensor"
  sequence_lengths :: "nat list"

record 'v net =
  state_dict :: "'v state_dict"
  training :: bool
  emb_requires_grad :: bool
  children :: "layer_group list"

datatype log_event =
    GPU_found
  | No_GPU_found
  | Saved_model string
  | Loading_embeddings
  | Loaded_model string
  | Fine_tuning_model
  | Training_model
  | Epoch nat
  | Skipping_batch
  | Train_accuracy real nat nat
  | Val_report real "real option" real
  | Evaluating

record 'v learner =
  config :: "'v config"
  model :: "'v net"
  use_cuda :: bool
  logger :: "log_event list"
  disk :: "(string \<times> 'v state_dict) list"

text \<open>
  The collaborators that are not part of the sources, as parameters: whether the host
  has a CUDA device, the network's forward pass, the CRF log-likelihood and its
  decoder, the chunk extractor, the value the optimizer writes into a parameter that
  has a gradient, and the data loader (its length and the stream of batches that the
  generator of \<open>batch_iter\<close> yields for a batch size).
\<close>

record ('v, 'o, 'k, 'd) ext =
  cuda_available :: bool
  forward :: "'v state_dict \<Rightarrow> bool \<Rightarrow> nat tensor \<Rightarrow> nat list list list \<Rightarrow> 'o"
  log_likelihood :: "'o \<Rightarrow> nat tensor \<Rightarrow> bool tensor \<Rightarrow> real"
  decode :: "'o \<Rightarrow> bool tensor option \<Rightarrow> nat list list"
  get_chunks :: "nat list \<Rightarrow> 'k list"
  adam_update :: "'v state_dict \<Rightarrow> 'o \<Rightarrow> nat tensor \<Rightarrow> bool tensor \<Rightarrow> string \<Rightarrow> 'v \<Rightarrow> 'v"
  dataset_len :: "'d \<Rightarrow> nat"
  batch_stream :: "'d \<Rightarrow> nat \<Rightarrow> nat \<Rightarrow> batch"

definition info :: "log_event \<Rightarrow> 'v learner \<Rightarrow> 'v learner" where
  "info ev s = s\<lparr>logger := logger s @ [ev]\<rparr>"

text \<open>
  \<open>NERLearner.__init__\<close>. The model is moved to the device only when one is there;
  the criterion is moved unconditionally.
\<close>

definition init :: "('v, 'o, 'k, 'd) ext \<Rightarrow> 'v config \<Rightarrow> 'v net \<Rightarrow>
    (string \<times> 'v state_dict) list \<Rightarrow> error option \<times> 'v learner" where
  "init ex cfg m dsk =
     (let s0 = \<lparr>config = cfg, model = m, use_cuda = False, logger = [], disk = dsk\<rparr>;
          s1 = (if cuda_available ex then info GPU_found (s0\<lparr>use_cuda := True\<rparr>)
                else info No_GPU_found s0)
      in case cuda (cuda_available ex) (ntags cfg) of
           Inl e \<Rightarrow> (Some e, s1)
         | Inr crf \<Rightarrow> (None, s1))"

text \<open>\<open>os.path.join\<close> on POSIX paths, and \<open>get_model_path\<close>.\<close>

definition os_path_join :: "string \<Rightarrow> string \<Rightarrow> string" where
  "os_path_join a b =
     (if b \<noteq> [] \<and> hd b = CHR ''/'' then b
      else if a = [] \<or> last a = CHR ''/'' then a @ b
      else a @ ''/'' @ b)"

definition get_model_path :: "'v learner \<Rightarrow> string \<Rightarrow> string" where
  "get_model_path s name = os_path_join (dir_model (config s)) name @ ''.h5''"

text \<open>\<open>save\<close>: \<open>save_model\<close> writes the state dict to the path.\<close>

definition save :: "'v learner \<Rightarrow> string option \<Rightarrow> 'v learner" where
  "save s name =
     (let name' = (case name of None \<Rightarrow> ner_model_path (config s)
                   | Some n \<Rightarrow> if n = [] then ner_model_path (config s) else n);
          s' = s\<lparr>disk := AList.update (get_model_path s name') (state_dict (model s)) (disk s)\<rparr>
      in info (Saved_model (get_model_path s name')) s')"

definition load_emb :: "'v learner \<Rightarrow> 'v learner" where
  "load_emb s =
     info Loading_embeddings
       (s\<lparr>model := (model s)\<lparr>state_dict :=
                        AList.update ''emb.weight'' (embeddings (config s)) (state_dict (model s)),
                      emb_requires_grad := False\<rparr>\<rparr>)"

text \<open>
  \<open>load\<close>: reading a path that does not exist raises; the success message is logged
  only when \<open>load_ner_model\<close> returns.
\<close>

definition load :: "'v learner \<Rightarrow> string option \<Rightarrow> error option \<times> 'v learner" where
  "load s fn =
     (let fn' = (case fn of None \<Rightarrow> ner_model_path (config s)
                 | Some n \<Rightarrow> if n = [] then ner_model_path (config s) else n);
          path = get_model_path s fn'
      in case map_of (disk s) path of
           None \<Rightarrow> (Some FileNotFoundError, s)
         | Some sd \<Rightarrow>
             (case load_ner_model (state_dict (model s)) sd True of
                (Some e, own') \<Rightarrow> (Some e, s\<lparr>model := (model s)\<lparr>state_dict := own'\<rparr>\<rparr>)
              | (None, own') \<Rightarrow>
                  (None, info (Loaded_model path) (s\<lparr>model := (model s)\<lparr>state_dict := own'\<rparr>\<rparr>))))"

section \<open>Training\<close>

text \<open>
  \<open>loss.backward(); self.optimizer.step()\<close>. The library's contract: a parameter whose
  \<open>requires_grad\<close> is off gets no gradient, and the optimizer leaves a parameter
  without gradient as it is; every other parameter gets the value the optimizer
  computes (\<open>adam_update\<close>, any function). The learning-rate schedule and the
  optimizer's moments are inside \<open>adam_update\<close>.
\<close>

definition optimizer_step :: "('v, 'o, 'k, 'd) ext \<Rightarrow> 'v net \<Rightarrow> 'o \<Rightarrow> nat tensor \<Rightarrow> bool tensor \<Rightarrow> 'v net" where
  "optimizer_step ex m outputs targets msk =
     m\<lparr>state_dict :=
          map (\<lambda>(n, v). (n, if n = ''emb.weight'' \<and> \<not> emb_requires_grad m then v
                            else adam_update ex (state_dict m) outputs targets msk n v))
              (state_dict m)\<rparr>"

text \<open>\<open>mask.type(torch.LongTensor).sum()\<close>\<close>

definition mask_sum :: "bool tensor \<Rightarrow> nat" where
  "mask_sum msk = length (filter (\<lambda>b. b) (concat (rows msk)))"

text \<open>
  \<open>sum([p[i] == mt[i] for p, mt in zip(predictions, masked_targets) for i in range(len(p))])\<close>:
  indexing a gold sequence shorter than its prediction raises.
\<close>

definition count_correct :: "nat list list \<Rightarrow> nat list list \<Rightarrow> error + nat" where
  "count_correct predictions masked_targets =
     (if \<exists>(p, mt) \<in> set (zip predictions masked_targets). length mt < length p
      then Inl IndexError
      else Inr (sum_list (map (\<lambda>(p, mt). length (filter (\<lambda>i. p ! i = mt ! i) [0..<length p]))
                              (zip predictions masked_targets))))"

text \<open>One iteration of the loop of \<open>train\<close>, on the learner and the counters \<open>correct\<close>, \<open>total\<close> (\<open>tot\<close>).\<close>

definition train_batch :: "('v, 'o, 'k, 'd) ext \<Rightarrow> 'v learner \<times> nat \<times> nat \<Rightarrow> batch \<Rightarrow>
    error option \<times> ('v learner \<times> nat \<times> nat)" where
  "train_batch ex acc b =
     (case acc of (s, correct, tot) \<Rightarrow>
        if size0 (word_ids b) = 1 then (None, (info Skipping_batch s, correct, tot))
        else
          (case char_ids b of
             None \<Rightarrow> (Some KeyError, acc)
           | Some char_input \<Rightarrow>
               (let targets = transpose_t (labels b);
                    outputs = forward ex (state_dict (model s)) (training (model s)) (word_ids b) char_input
                in case create_mask (cuda_available ex) (sequence_lengths b) targets False of
                     Inl e \<Rightarrow> (Some e, acc)
                   | Inr msk \<Rightarrow>
                       (let s' = s\<lparr>model := optimizer_step ex (model s) outputs targets msk\<rparr>;
                            predictions = decode ex outputs (Some msk);
                            masked_targets = mask_targets targets (sequence_lengths b) False;
                            t = mask_sum msk
                        in case count_correct predictions masked_targets of
                             Inl e \<Rightarrow> (Some e, (s', correct, tot + t))
                           | Inr c \<Rightarrow>
                               (if t = 0 then (Some ZeroDivisionError, (s', correct + c, tot + t))
                                else (None, (s', correct + c, tot + t)))))))"

fun train_loop :: "('v, 'o, 'k, 'd) ext \<Rightarrow> 'v learner \<times> nat \<times> nat \<Rightarrow> batch list \<Rightarrow>
    error option \<times> ('v learner \<times> nat \<times> nat)" where
  "train_loop ex acc [] = (None, acc)"
| "train_loop ex acc (b # bs) =
     (case train_batch ex acc b of
        (Some e, acc') \<Rightarrow> (Some e, acc')
      | (None, acc') \<Rightarrow> train_loop ex acc' bs)"

text \<open>
  \<open>train\<close>. The generator is the stream of batches from its current position; the
  loop processes the first \<open>nbatches_train\<close> of them.
\<close>

definition train :: "('v, 'o, 'k, 'd) ext \<Rightarrow> 'v learner \<Rightarrow> nat \<Rightarrow> nat \<Rightarrow> (nat \<Rightarrow> batch) \<Rightarrow> bool \<Rightarrow>
    error option \<times> 'v learner" where
  "train ex s epoch nbatches_train train_generator fine_tune =
     (let s1 = info (Epoch epoch) s;
          s2 = s1\<lparr>model := (model s1)\<lparr>training := True\<rparr>\<rparr>;
          s3 = s2\<lparr>model := (model s2)\<lparr>emb_requires_grad := False\<rparr>\<rparr>
      in case train_loop ex (s3, 0, 0) (map train_generator [0..<nbatches_train]) of
           (Some e, (s4, correct, tot)) \<Rightarrow> (Some e, s4)
         | (None, (s4, correct, tot)) \<Rightarrow>
             (if tot = 0 then (Some ZeroDivisionError, s4)
              else (None, info (Train_accuracy (100 * real correct / real tot) correct tot) s4)))"

section \<open>Evaluation\<close>

text \<open>One iteration of the loop of \<open>test\<close>.\<close>

definition test_batch :: "('v, 'o, 'k, 'd) ext \<Rightarrow> 'v learner \<times> eval_acc \<Rightarrow> nat \<times> batch \<Rightarrow>
    error option \<times> ('v learner \<times> eval_acc)" where
  "test_batch ex acc ib =
     (case acc of (s, st) \<Rightarrow> case ib of (batch_idx, b) \<Rightarrow>
        if size0 (word_ids b) = 1 then (None, (info Skipping_batch s, st))
        else
          (let st1 = st\<lparr>total_step := Some batch_idx\<rparr>
           in case char_ids b of
                None \<Rightarrow> (Some KeyError, (s, st1))
              | Some char_input \<Rightarrow>
                  (let targets = transpose_t (labels b);
                       outputs = forward ex (state_dict (model s)) (training (model s)) (word_ids b) char_input
                   in case create_mask (cuda_available ex) (sequence_lengths b) targets False of
                        Inl e \<Rightarrow> (Some e, (s, st1))
                      | Inr msk \<Rightarrow>
                          (let loss = - log_likelihood ex outputs targets msk;
                               st2 = st1\<lparr>test_loss := test_loss st1 + loss\<rparr>;
                               predictions = decode ex outputs (Some msk);
                               masked_targets = mask_targets targets (sequence_lengths b) False
                           in (None, (s, eval_samples (get_chunks ex) st2 masked_targets predictions))))))"

fun test_loop :: "('v, 'o, 'k, 'd) ext \<Rightarrow> 'v learner \<times> eval_acc \<Rightarrow> (nat \<times> batch) list \<Rightarrow>
    error option \<times> ('v learner \<times> eval_acc)" where
  "test_loop ex acc [] = (None, acc)"
| "test_loop ex acc (ib # ibs) =
     (case test_batch ex acc ib of
        (Some e, acc') \<Rightarrow> (Some e, acc')
      | (None, acc') \<Rightarrow> test_loop ex acc' ibs)"

text \<open>
  \<open>test\<close>. The report divides the loss by \<open>total_step + 1\<close>, which raises when no batch
  was processed (\<open>total_step\<close> is still \<open>None\<close>).
\<close>

definition test :: "('v, 'o, 'k, 'd) ext \<Rightarrow> 'v learner \<Rightarrow> nat \<Rightarrow> (nat \<Rightarrow> batch) \<Rightarrow> bool \<Rightarrow>
    error option \<times> 'v learner" where
  "test ex s nbatches_val val_generator fine_tune =
     (let s1 = s\<lparr>model := (model s)\<lparr>training := False\<rparr>\<rparr>
      in case test_loop ex (s1, eval_acc0) (enumerate 0 (map val_generator [0..<nbatches_val])) of
           (Some e, (s2, st)) \<Rightarrow> (Some e, s2)
         | (None, (s2, st)) \<Rightarrow>
             (case final_scores (correct_preds st) (total_preds st) (total_correct st) of
                Inl e \<Rightarrow> (Some e, s2)
              | Inr (p, r, f1) \<Rightarrow>
                  (let acc = np_mean (accs st)
                   in case total_step st of
                        None \<Rightarrow> (Some TypeError, s2)
                      | Some ts \<Rightarrow>
                          (None, info (Val_report (test_loss st / real (ts + 1))
                                         (map_option (\<lambda>a. 100 * a) acc) (100 * f1)) s2))))"

section \<open>Fitting, fine-tuning, prediction\<close>

text \<open>\<open>batch_iter\<close>: the number of batches and the generator.\<close>

definition batch_iter :: "('v, 'o, 'k, 'd) ext \<Rightarrow> 'd \<Rightarrow> nat \<Rightarrow> error + (nat \<times> (nat \<Rightarrow> batch))" where
  "batch_iter ex data bs =
     (if bs = 0 then Inl ZeroDivisionError
      else Inr ((dataset_len ex data + bs - 1) div bs, batch_stream ex data bs))"

text \<open>
  The epochs of \<open>fit\<close>. Each call of \<open>train\<close> and \<open>test\<close> takes one batch more from its
  generator than it processes (the one on which the loop breaks).
\<close>

fun fit_loop :: "('v, 'o, 'k, 'd) ext \<Rightarrow> nat \<Rightarrow> (nat \<Rightarrow> batch) \<Rightarrow> nat \<Rightarrow> (nat \<Rightarrow> batch) \<Rightarrow> bool \<Rightarrow>
    'v learner \<Rightarrow> nat list \<Rightarrow> error option \<times> 'v learner" where
  "fit_loop ex nbt gt nbd gd ft s [] = (None, s)"
| "fit_loop ex nbt gt nbd gd ft s (epoch # es) =
     (case train ex s epoch nbt (\<lambda>i. gt (epoch * (nbt + 1) + i)) ft of
        (Some e, s') \<Rightarrow> (Some e, s')
      | (None, s') \<Rightarrow>
          (case test ex s' nbd (\<lambda>i. gd (epoch * (nbd + 1) + i)) ft of
             (Some e, s'') \<Rightarrow> (Some e, s'')
           | (None, s'') \<Rightarrow> fit_loop ex nbt gt nbd gd ft s'' es))"

text \<open>
  \<open>fit(self, train, dev, epochs=None, fine_tune=False)\<close>: \<open>train\<close> and \<open>dev\<close> have no
  default, so a call that passes neither raises \<open>TypeError\<close> before the body runs. An
  argument that the caller leaves out is \<open>None\<close> here.
\<close>

definition fit :: "('v, 'o, 'k, 'd) ext \<Rightarrow> 'v learner \<Rightarrow> 'd option \<Rightarrow> 'd option \<Rightarrow> nat option \<Rightarrow> bool \<Rightarrow>
    error option \<times> 'v learner" where
  "fit ex s train_data dev_data epochs fine_tune =
     (case (train_data, dev_data) of
        (Some tr, Some dv) \<Rightarrow>
          (let epochs' = (case epochs of None \<Rightarrow> nepochs (config s)
                          | Some e \<Rightarrow> if e = 0 then nepochs (config s) else e);
               bs = batch_size (config s)
           in case batch_iter ex tr bs of
                Inl e \<Rightarrow> (Some e, s)
              | Inr (nbt, gt) \<Rightarrow>
                  (case batch_iter ex dv bs of
                     Inl e \<Rightarrow> (Some e, s)
                   | Inr (nbd, gd) \<Rightarrow>
                       (let s1 = (if \<not> fine_tune then info Training_model s else s)
                        in case fit_loop ex nbt gt nbd gd fine_tune s1 [0..<epochs'] of
                             (Some e, s2) \<Rightarrow> (Some e, s2)
                           | (None, s2) \<Rightarrow>
                               (None, if fine_tune then save s2 (Some (ner_ft_path (config s2)))
                                      else save s2 (Some (ner_model_path (config s2)))))))
      | _ \<Rightarrow> (Some TypeError, s))"

text \<open>\<open>fine_tune\<close> calls \<open>self.fit(epochs=1, fine_tune=True)\<close>.\<close>

definition fine_tune :: "('v, 'o, 'k, 'd) ext \<Rightarrow> 'v learner \<Rightarrow> error option \<times> 'v learner" where
  "fine_tune ex s = fit ex (info Fine_tuning_model s) None None (Some 1) True"

definition evaluate :: "('v, 'o, 'k, 'd) ext \<Rightarrow> 'v learner \<Rightarrow> 'd \<Rightarrow> error option \<times> 'v learner" where
  "evaluate ex s test_data =
     (case batch_iter ex test_data (batch_size (config s)) of
        Inl e \<Rightarrow> (Some e, s)
      | Inr (nbatches_test, test_generator) \<Rightarrow>
          test ex (info Evaluating s) nbatches_test test_generator False)"

text \<open>
  \<open>predict_batch\<close>: the padding and the replication of the sample up to the batch
  size (\<open>encode\<close>) are outside the sources; the decoder runs without a mask and the
  first decoded sequence is returned.
\<close>

definition predict_batch :: "('v, 'o, 'k, 'd) ext \<Rightarrow>
    (nat \<Rightarrow> 'w \<Rightarrow> nat tensor \<times> nat list list list) \<Rightarrow> 'v learner \<Rightarrow> 'w \<Rightarrow>
    (error + nat list) \<times> 'v learner" where
  "predict_batch ex encode s words =
     (let s1 = s\<lparr>model := (model s)\<lparr>training := False\<rparr>\<rparr>;
          inputs = encode (batch_size (config s1)) words;
          outputs = forward ex (state_dict (model s1)) (training (model s1)) (fst inputs) (snd inputs);
          predictions = decode ex outputs None
      in case predictions of
           [] \<Rightarrow> (Inl IndexError, s1)
         | p # ps \<Rightarrow> (Inr p, s1))"


text \<open>
  \<open>predict\<close>: the featurizer \<open>processing_word\<close> belongs to the configuration object;
  \<open>words[0]\<close> raises on an empty sentence, and a decoded id without a tag raises.
  \<open>idx_to_tag\<close> inverts the tag vocabulary (a later tag wins an id).
\<close>

definition idx_to_tag :: "'v learner \<Rightarrow> nat \<rightharpoonup> string" where
  "idx_to_tag s = map_of (rev (map (\<lambda>(tag, idx). (idx, tag)) (vocab_tags (config s))))"

definition predict :: "('v, 'o, 'k, 'd) ext \<Rightarrow>
    (nat \<Rightarrow> 'x list list \<Rightarrow> nat tensor \<times> nat list list list) \<Rightarrow> (string \<Rightarrow> 'x) \<Rightarrow>
    'v learner \<Rightarrow> string list \<Rightarrow> (error + string list) \<times> 'v learner" where
  "predict ex encode processing_word s words_raw =
     (let words = map processing_word words_raw
      in if words = [] then (Inl IndexError, s)
         else
           (case predict_batch ex encode s [words] of
              (Inl e, s') \<Rightarrow> (Inl e, s')
            | (Inr pred_ids, s') \<Rightarrow>
                (if \<exists>idx \<in> set pred_ids. idx_to_tag s' idx = None then (Inl KeyError, s')
                 else (Inr (map (\<lambda>idx. the (idx_to_tag s' idx)) pred_ids), s'))))"

section \<open>Auxiliary notions for the theorems\<close>

text \<open>The chunk counters are consistent: no more correct chunks than predicted or gold ones.\<close>

definition counts_ok :: "eval_acc \<Rightarrow> bool" where
  "counts_ok st \<longleftrightarrow> correct_preds st \<le> total_preds st \<and> correct_preds st \<le> total_correct st"

text \<open>
  The (gold, predicted) sequence pairs that one iteration of \<open>test\<close> evaluates (none
  when the batch is skipped or the iteration raises), and the three chunk counts of a
  list of such pairs.
\<close>

definition batch_pairs :: "('v, 'o, 'k, 'd) ext \<Rightarrow> 'v learner \<Rightarrow> batch \<Rightarrow> (nat list \<times> nat list) list" where
  "batch_pairs ex s b =
     (if size0 (word_ids b) = 1 then []
      else
        (case char_ids b of
           None \<Rightarrow> []
         | Some char_input \<Rightarrow>
             (let targets = transpose_t (labels b);
                  outputs = forward ex (state_dict (model s)) (training (model s)) (word_ids b) char_input
              in case create_mask (cuda_available ex) (sequence_lengths b) targets False of
                   Inl e \<Rightarrow> []
                 | Inr msk \<Rightarrow>
                     zip (mask_targets targets (sequence_lengths b) False)
                         (decode ex outputs (Some msk)))))"

definition chunk_counts :: "(nat list \<Rightarrow> 'k list) \<Rightarrow> (nat list \<times> nat list) list \<Rightarrow> nat \<times> nat \<times> nat" where
  "chunk_counts gc pairs =
     ((\<Sum>(lab, lab_pred)\<leftarrow>pairs. card (set (gc lab) \<inter> set (gc lab_pred))),
      (\<Sum>(lab, lab_pred)\<leftarrow>pairs. card (set (gc lab_pred))),
      (\<Sum>(lab, lab_pred)\<leftarrow>pairs. card (set (gc lab))))"

definition counts_of :: "eval_acc \<Rightarrow> nat \<times> nat \<times> nat" where
  "counts_of st = (correct_preds st, total_preds st, total_correct st)"

text \<open>
  What the renaming loop of \<open>load_ner_model\<close> computes, as a map: a key of the
  snapshot \<open>ks\<close> that is not a live name while its \<open>_raw\<close> variant is one disappears;
  every other entry stays; and a live name without entry receives the tensor of the
  key that its \<open>_raw\<close> suffix was appended to.
\<close>

definition rename_spec :: "string set \<Rightarrow> string list \<Rightarrow> (string \<rightharpoonup> 'v) \<Rightarrow> (string \<rightharpoonup> 'v)" where
  "rename_spec names ks m k =
     (if k \<in> set ks \<and> k \<notin> names \<and> k @ ''_raw'' \<in> names then None
      else case m k of
             Some v \<Rightarrow> Some v
           | None \<Rightarrow>
               (if k \<in> names \<and> (\<exists>n \<in> set ks. n \<notin> names \<and> n @ ''_raw'' = k)
                then m (take (length k - 4) k) else None))"

section \<open>Sample data\<close>

text \<open>
  A two-sample batch: sample 0 has length 5, sample 1 has length 3 and is padded to 5.
  \<open>labels1\<close> differs from the labels of \<open>batch0\<close> in the two padded positions only.
\<close>

definition batch0 :: batch where
  "batch0 = \<lparr>word_ids = of_rows 2 5 [[4, 9, 2, 7, 3], [8, 6, 5, 1, 1]],
             char_ids = Some [],
             labels = of_rows 2 5 [[1, 2, 0, 0, 1], [2, 0, 1, 0, 0]],
             sequence_lengths = [5, 3]\<rparr>"

definition labels1 :: "nat tensor" where
  "labels1 = of_rows 2 5 [[1, 2, 0, 0, 1], [2, 0, 1, 2, 2]]"

definition ex0 :: "(nat, unit, nat \<times> nat \<times> nat, unit) ext" where
  "ex0 = \<lparr>cuda_available = True,
          forward = (\<lambda>sd tr w c. ()),
          log_likelihood = (\<lambda>out t m. - 1),
          decode = (\<lambda>out m. [[1, 2, 0, 0, 1], [2, 0, 0]]),
          get_chunks = (\<lambda>tags. map (\<lambda>i. (tags ! i, i, i + 1)) (filter (\<lambda>i. tags ! i \<noteq> 0) [0..<length tags])),
          adam_update = (\<lambda>sd out t m n v. v + 1),
          dataset_len = (\<lambda>d. 2),
          batch_stream = (\<lambda>d bs k. batch0)\<rparr>"

definition config0 :: "nat config" where
  "config0 = \<lparr>dir_model = ''results'', ner_model_path = ''ner'', ner_ft_path = ''ner_ft'',
              nepochs = 2, batch_size = 2, use_chars = True, ntags = 3,
              vocab_tags = [(''O'', 0), (''B-LOC'', 1), (''B-PER'', 2)], embeddings = 7\<rparr>"

definition net0 :: "nat net" where
  "net0 = \<lparr>state_dict = [(''emb.weight'', 10), (''lstm.w_raw'', 20), (''fc.bias'', 30)],
           training = True, emb_requires_grad = True,
           children = [\<lparr>group_name = ''emb'', trainable = True\<rparr>,
                       \<lparr>group_name = ''lstm'', trainable = True\<rparr>,
                       \<lparr>group_name = ''fc'', trainable = True\<rparr>]\<rparr>"

definition learner0 :: "nat learner" where
  "learner0 = \<lparr>config = config0, model = net0, use_cuda = True, logger = [], disk = []\<rparr>"

text \<open>
  Checkpoints for \<open>net0\<close>: \<open>ckpt0\<close> holds the recurrent weight under its plain name,
  \<open>ckpt1\<close> in addition lacks the bias, \<open>ckpt2\<close> is for a network whose live name is the
  plain one.
\<close>

definition ckpt0 :: "nat state_dict" where
  "ckpt0 = [(''emb.weight'', 11), (''lstm.w'', 21), (''fc.bias'', 31)]"


definition ckpt2 :: "nat state_dict" where
  "ckpt2 = [(''w_raw'', 5)]"

section \<open>Theorems: mask construction\<close>

lemma mask_loop_tm:
  "size0 msk = size0 t \<Longrightarrow> size1 msk = size1 t \<Longrightarrow> k + length xs \<le> size1 t \<Longrightarrow>
   \<exists>m'. mask_loop False t (enumerate k xs) msk = Inr m' \<and> size0 m' = size0 t \<and> size1 m' = size1 t \<and>
     (\<forall>r c. entry m' r c = (if k \<le> c \<and> c < k + length xs \<and> xs ! (c - k) \<le> r \<and> xs ! (c - k) < size0 t
                          then False else entry msk r c))"
proof (induction xs arbitrary: k msk)
  case Nil
  then show ?case by auto
next
  case (Cons l xs)
  show ?case
  proof (cases "l < size0 t")
    case True
    let ?m = "msk\<lparr>entry := (\<lambda>r c. if l \<le> r \<and> c = k then False else entry msk r c)\<rparr>"
    have "size0 ?m = size0 t" "size1 ?m = size1 t" "Suc k + length xs \<le> size1 t"
      using Cons.prems by simp_all
    from Cons.IH[OF this] obtain m' where
      m': "mask_loop False t (enumerate (Suc k) xs) ?m = Inr m'" "size0 m' = size0 t" "size1 m' = size1 t"
        "\<forall>r c. entry m' r c = (if Suc k \<le> c \<and> c < Suc k + length xs \<and> xs ! (c - Suc k) \<le> r \<and> xs ! (c - Suc k) < size0 t
                          then False else entry ?m r c)" by blast
    have "mask_loop False t (enumerate k (l # xs)) msk = Inr m'"
      using True Cons.prems m'(1) by simp
    moreover have "\<forall>r c. entry m' r c = (if k \<le> c \<and> c < k + length (l # xs) \<and> (l # xs) ! (c - k) \<le> r \<and> (l # xs) ! (c - k) < size0 t
                          then False else entry msk r c)"
    proof (intro allI)
      fix r c
      show "entry m' r c = (if k \<le> c \<and> c < k + length (l # xs) \<and> (l # xs) ! (c - k) \<le> r \<and> (l # xs) ! (c - k) < size0 t
                          then False else entry msk r c)"
      proof (cases "c = k")
        case True
        then show ?thesis using m'(4) \<open>l < size0 t\<close> by simp
      next
        case False
        then show ?thesis using m'(4) by (cases "k \<le> c") (auto simp: nth_Cons' Suc_le_eq)
      qed
    qed
    ultimately show ?thesis using m'(2,3) by blast
  next
    case False
    have "Suc k + length xs \<le> size1 t" using Cons.prems by simp
    from Cons.IH[OF Cons.prems(1,2) this] obtain m' where
      m': "mask_loop False t (enumerate (Suc k) xs) msk = Inr m'" "size0 m' = size0 t" "size1 m' = size1 t"
        "\<forall>r c. entry m' r c = (if Suc k \<le> c \<and> c < Suc k + length xs \<and> xs ! (c - Suc k) \<le> r \<and> xs ! (c - Suc k) < size0 t
                          then False else entry msk r c)" by blast
    have "mask_loop False t (enumerate k (l # xs)) msk = Inr m'"
      using False m'(1) by simp
    moreover have "\<forall>r c. entry m' r c = (if k \<le> c \<and> c < k + length (l # xs) \<and> (l # xs) ! (c - k) \<le> r \<and> (l # xs) ! (c - k) < size0 t
                          then False else entry msk r c)"
    proof (intro allI)
      fix r c
      show "entry m' r c = (if k \<le> c \<and> c < k + length (l # xs) \<and> (l # xs) ! (c - k) \<le> r \<and> (l # xs) ! (c - k) < size0 t
                          then False else entry msk r c)"
      proof (cases "c = k")
        case True
        then show ?thesis using m'(4) \<open>\<not> l < size0 t\<close> by simp
      next
        case False
        then show ?thesis using m'(4) by (cases "k \<le> c") (auto simp: nth_Cons' Suc_le_eq)
      qed
    qed
    ultimately show ?thesis using m'(2,3) by blast
  qed
qed



lemma mask_loop_bm:
  "size0 msk = size0 t \<Longrightarrow> size1 msk = size1 t \<Longrightarrow> k + length xs \<le> size0 t \<Longrightarrow>
   \<exists>m'. mask_loop True t (enumerate k xs) msk = Inr m' \<and> size0 m' = size0 t \<and> size1 m' = size1 t \<and>
     (\<forall>r c. entry m' r c = (if k \<le> r \<and> r < k + length xs \<and> xs ! (r - k) \<le> c \<and> xs ! (r - k) < size1 t
                          then False else entry msk r c))"
proof (induction xs arbitrary: k msk)
  case Nil
  then show ?case by auto
next
  case (Cons l xs)
  show ?case
  proof (cases "l < size1 t")
    case True
    let ?m = "msk\<lparr>entry := (\<lambda>r c. if r = k \<and> l \<le> c then False else entry msk r c)\<rparr>"
    have "size0 ?m = size0 t" "size1 ?m = size1 t" "Suc k + length xs \<le> size0 t"
      using Cons.prems by simp_all
    from Cons.IH[OF this] obtain m' where
      m': "mask_loop True t (enumerate (Suc k) xs) ?m = Inr m'" "size0 m' = size0 t" "size1 m' = size1 t"
        "\<forall>r c. entry m' r c = (if Suc k \<le> r \<and> r < Suc k + length xs \<and> xs ! (r - Suc k) \<le> c \<and> xs ! (r - Suc k) < size1 t
                          then False else entry ?m r c)" by blast
    have "mask_loop True t (enumerate k (l # xs)) msk = Inr m'"
      using True Cons.prems m'(1) by simp
    moreover have "\<forall>r c. entry m' r c = (if k \<le> r \<and> r < k + length (l # xs) \<and> (l # xs) ! (r - k) \<le> c \<and> (l # xs) ! (r - k) < size1 t
                          then False else entry msk r c)"
    proof (intro allI)
      fix r c
      show "entry m' r c = (if k \<le> r \<and> r < k + length (l # xs) \<and> (l # xs) ! (r - k) \<le> c \<and> (l # xs) ! (r - k) < size1 t
                          then False else entry msk r c)"
      proof (cases "r = k")
        case True
        then show ?thesis using m'(4) \<open>l < size1 t\<close> by simp
      next
        case False
        then show ?thesis using m'(4) by (cases "k \<le> r") (auto simp: nth_Cons' Suc_le_eq)
      qed
    qed
    ultimately show ?thesis using m'(2,3) by blast
  next
    case False
    have "Suc k + length xs \<le> size0 t" using Cons.prems by simp
    from Cons.IH[OF Cons.prems(1,2) this] obtain m' where
      m': "mask_loop True t (enumerate (Suc k) xs) msk = Inr m'" "size0 m' = size0 t" "size1 m' = size1 t"
        "\<forall>r c. entry m' r c = (if Suc k \<le> r \<and> r < Suc k + length xs \<and> xs ! (r - Suc k) \<le> c \<and> xs ! (r - Suc k) < size1 t
                          then False else entry msk r c)" by blast
    have "mask_loop True t (enumerate k (l # xs)) msk = Inr m'"
      using False m'(1) by simp
    moreover have "\<forall>r c. entry m' r c = (if k \<le> r \<and> r < k + length (l # xs) \<and> (l # xs) ! (r - k) \<le> c \<and> (l # xs) ! (r - k) < size1 t
                          then False else entry msk r c)"
    proof (intro allI)
      fix r c
      show "entry m' r c = (if k \<le> r \<and> r < k + length (l # xs) \<and> (l # xs) ! (r - k) \<le> c \<and> (l # xs) ! (r - k) < size1 t
                          then False else entry msk r c)"
      proof (cases "r = k")
        case True
        then show ?thesis using m'(4) \<open>\<not> l < size1 t\<close> by simp
      next
        case False
        then show ?thesis using m'(4) by (cases "k \<le> r") (auto simp: nth_Cons' Suc_le_eq)
      qed
    qed
    ultimately show ?thesis using m'(2,3) by blast
  qed
qed

lemma create_mask_with_device:
  assumes "avail"
    and "length sls \<le> (if batch_first then size0 targets else size1 targets)"
  shows "\<exists>m. create_mask avail sls targets batch_first = Inr m
           \<and> size0 m = size0 targets \<and> size1 m = size1 targets
           \<and> (\<forall>i j. i < length sls \<longrightarrow>
                 (if batch_first then j < size1 targets \<longrightarrow> entry m i j = (j < sls ! i)
                  else j < size0 targets \<longrightarrow> entry m j i = (j < sls ! i)))
           \<and> (\<forall>i j. length sls \<le> i \<longrightarrow>
                 (if batch_first then entry m i j else entry m j i))"
proof (cases batch_first)
  case True
  have "size0 (ones targets) = size0 targets" "size1 (ones targets) = size1 targets"
    "0 + length sls \<le> size0 targets"
    using assms(2) True by (simp_all add: ones_def)
  from mask_loop_bm[OF this] obtain m where
    m: "mask_loop True targets (enumerate 0 sls) (ones targets) = Inr m"
       "size0 m = size0 targets" "size1 m = size1 targets"
       "\<forall>r c. entry m r c = (if 0 \<le> r \<and> r < 0 + length sls
             \<and> sls ! (r - 0) \<le> c \<and> sls ! (r - 0) < size1 targets
           then False else entry (ones targets) r c)" by blast
  have "create_mask avail sls targets batch_first = Inr m"
    using assms(1) True m(1) by (simp add: create_mask_def cuda_def)
  moreover have "\<forall>i j. i < length sls \<longrightarrow> j < size1 targets \<longrightarrow>
      entry m i j = (j < sls ! i)"
    using m(4) by (auto simp: ones_def)
  moreover have "\<forall>i j. length sls \<le> i \<longrightarrow> entry m i j"
    using m(4) by (auto simp: ones_def)
  ultimately show ?thesis using True m(2,3) by auto
next
  case False
  have "size0 (ones targets) = size0 targets" "size1 (ones targets) = size1 targets"
    "0 + length sls \<le> size1 targets"
    using assms(2) False by (simp_all add: ones_def)
  from mask_loop_tm[OF this] obtain m where
    m: "mask_loop False targets (enumerate 0 sls) (ones targets) = Inr m"
       "size0 m = size0 targets" "size1 m = size1 targets"
       "\<forall>r c. entry m r c = (if 0 \<le> c \<and> c < 0 + length sls
             \<and> sls ! (c - 0) \<le> r \<and> sls ! (c - 0) < size0 targets
           then False else entry (ones targets) r c)" by blast
  have "create_mask avail sls targets batch_first = Inr m"
    using assms(1) False m(1) by (simp add: create_mask_def cuda_def)
  moreover have "\<forall>i j. i < length sls \<longrightarrow> j < size0 targets \<longrightarrow>
      entry m j i = (j < sls ! i)"
    using m(4) by (auto simp: ones_def)
  moreover have "\<forall>i j. length sls \<le> i \<longrightarrow> entry m j i"
    using m(4) by (auto simp: ones_def)
  ultimately show ?thesis using False m(2,3) by auto
qed

lemma mask_loop_ref_refines:
  "p < length h \<Longrightarrow>
   mask_loop_ref bf t xs p (h[p := ByteTensor m]) =
     (case mask_loop bf t xs m of Inl e \<Rightarrow> Inl e | Inr m' \<Rightarrow> Inr (h[p := ByteTensor m']))"
  by (induction xs arbitrary: m) auto

lemma create_mask_ref_refines:
  assumes "pl < length h" "pt < length h" "h ! pl = IntList sls" "h ! pt = LongTensor t"
  shows "create_mask_ref avail pl pt bf h =
     (case create_mask avail sls t bf of
        Inl e \<Rightarrow> Inl e
      | Inr m \<Rightarrow> Inr (length h, h @ [ByteTensor m]))"
proof (cases avail)
  case False
  then show ?thesis using assms by (simp add: create_mask_ref_def create_mask_def cuda_def)
next
  case True
  let ?h1 = "h @ [ByteTensor (ones t)]"
  have p: "length h < length ?h1" by simp
  have e: "?h1[length h := ByteTensor m] = h @ [ByteTensor m]" for m by simp
  have "mask_loop_ref bf t (enumerate 0 sls) (length h) ?h1 =
      (case mask_loop bf t (enumerate 0 sls) (ones t) of
         Inl e \<Rightarrow> Inl e | Inr m' \<Rightarrow> Inr (h @ [ByteTensor m']))"
    using mask_loop_ref_refines[OF p, of bf t "enumerate 0 sls" "ones t"] by (simp only: e)
  then show ?thesis using True assms
    by (simp add: create_mask_ref_def create_mask_def cuda_def split: sum.splits)
qed

text \<open>
  C1 (the code departs from the claim). \<open>create_mask\<close> moves the fresh mask to the
  device unconditionally, so on a host without a CUDA device it raises for every list
  of lengths and every target tensor instead of returning a mask. With a device and
  one length per sample (or fewer), it returns a mask of the shape of the targets; for
  sample \<open>i\<close> of length \<open>l\<close> the positions before \<open>l\<close> are true and those from \<open>l\<close> on are
  false, time-major (\<open>mask[j, i]\<close>) when \<open>batch_first\<close> is off and batch-major
  (\<open>mask[i, j]\<close>) when it is on; samples without a length stay all true. On the store,
  the call only adds the mask: the list of lengths, the targets and every other object
  are as before.
\<close>

theorem create_mask_returns_mask_on_device_only:
  "create_mask False sls targets batch_first = Inl CudaError
   \<and> (length sls \<le> (if batch_first then size0 targets else size1 targets) \<longrightarrow>
        (\<exists>m. create_mask True sls targets batch_first = Inr m
           \<and> size0 m = size0 targets \<and> size1 m = size1 targets
           \<and> (\<forall>i j. i < length sls \<longrightarrow>
                 (if batch_first then j < size1 targets \<longrightarrow> entry m i j = (j < sls ! i)
                  else j < size0 targets \<longrightarrow> entry m j i = (j < sls ! i)))
           \<and> (\<forall>i j. length sls \<le> i \<longrightarrow>
                 (if batch_first then entry m i j else entry m j i))))
   \<and> (pl < length h \<and> pt < length h \<and> h ! pl = IntList sls \<and> h ! pt = LongTensor t \<longrightarrow>
        create_mask_ref avail pl pt batch_first h =
          (case create_mask avail sls t batch_first of
             Inl e \<Rightarrow> Inl e
           | Inr m \<Rightarrow> Inr (length h, h @ [ByteTensor m]))
        \<and> (\<forall>p h'. create_mask_ref avail pl pt batch_first h = Inr (p, h') \<longrightarrow>
              p = length h \<and> take (length h) h' = h
              \<and> h' ! pl = IntList sls \<and> h' ! pt = LongTensor t))"
proof (intro conjI impI)
  show "create_mask False sls targets batch_first = Inl CudaError"
    by (simp add: create_mask_def cuda_def)
next
  assume "length sls \<le> (if batch_first then size0 targets else size1 targets)"
  from create_mask_with_device[OF TrueI this]
  show "\<exists>m. create_mask True sls targets batch_first = Inr m
           \<and> size0 m = size0 targets \<and> size1 m = size1 targets
           \<and> (\<forall>i j. i < length sls \<longrightarrow>
                 (if batch_first then j < size1 targets \<longrightarrow> entry m i j = (j < sls ! i)
                  else j < size0 targets \<longrightarrow> entry m j i = (j < sls ! i)))
           \<and> (\<forall>i j. length sls \<le> i \<longrightarrow>
                 (if batch_first then entry m i j else entry m j i))" .
next
  assume a: "pl < length h \<and> pt < length h \<and> h ! pl = IntList sls \<and> h ! pt = LongTensor t"
  then show "create_mask_ref avail pl pt batch_first h =
          (case create_mask avail sls t batch_first of
             Inl e \<Rightarrow> Inl e
           | Inr m \<Rightarrow> Inr (length h, h @ [ByteTensor m]))"
    using create_mask_ref_refines[of pl h pt sls t avail batch_first] by blast
next
  assume a: "pl < length h \<and> pt < length h \<and> h ! pl = IntList sls \<and> h ! pt = LongTensor t"
  then have r: "create_mask_ref avail pl pt batch_first h =
          (case create_mask avail sls t batch_first of
             Inl e \<Rightarrow> Inl e
           | Inr m \<Rightarrow> Inr (length h, h @ [ByteTensor m]))"
    using create_mask_ref_refines[of pl h pt sls t avail batch_first] by blast
  show "\<forall>p h'. create_mask_ref avail pl pt batch_first h = Inr (p, h') \<longrightarrow>
              p = length h \<and> take (length h) h' = h
              \<and> h' ! pl = IntList sls \<and> h' ! pt = LongTensor t"
    using a unfolding r by (auto split: sum.splits simp: nth_append)
qed

theorem create_mask_returns_mask_on_device_only_witness:
  "create_mask False [3, 2] (of_rows 3 2 [[7, 8], [1, 4], [2, 0 :: nat]]) False = Inl CudaError
   \<and> length [3, 2 :: nat] \<le> size1 (of_rows 3 2 [[7, 8], [1, 4], [2, 0 :: nat]])
   \<and> (\<exists>m. create_mask True [3, 2] (of_rows 3 2 [[7, 8], [1, 4], [2, 0 :: nat]]) False = Inr m
        \<and> size0 m = 3 \<and> size1 m = 2 \<and> entry m 2 0 \<and> \<not> entry m 2 1 \<and> entry m 1 1
        \<and> create_mask_ref True 0 1 False
             [IntList [3, 2], LongTensor (of_rows 3 2 [[7, 8], [1, 4], [2, 0]])]
           = Inr (2, [IntList [3, 2], LongTensor (of_rows 3 2 [[7, 8], [1, 4], [2, 0]]),
                      ByteTensor m]))"
proof -
  let ?t = "of_rows 3 2 [[7, 8], [1, 4], [2, 0 :: nat]]"
  let ?h = "[IntList [3, 2], LongTensor ?t]"
  note T = create_mask_returns_mask_on_device_only[of "[3, 2]" ?t False 0 ?h 1 ?t True]
  have h: "length [3, 2 :: nat] \<le> (if False then size0 ?t else size1 ?t)"
    by (simp add: of_rows_def)
  from T h obtain m where
    m: "create_mask True [3, 2] ?t False = Inr m" "size0 m = size0 ?t" "size1 m = size1 ?t"
       "\<forall>i j. i < length [3, 2 :: nat] \<longrightarrow>
          (if False then j < size1 ?t \<longrightarrow> entry m i j = (j < [3, 2] ! i)
           else j < size0 ?t \<longrightarrow> entry m j i = (j < [3, 2] ! i))" by blast
  have "entry m 2 0" using m(4)[rule_format, of 0 2] by (simp add: of_rows_def)
  moreover have "\<not> entry m 2 1" using m(4)[rule_format, of 1 2] by (simp add: of_rows_def)
  moreover have "entry m 1 1" using m(4)[rule_format, of 1 1] by (simp add: of_rows_def)
  moreover have "create_mask False [3, 2] ?t False = Inl CudaError" using T by blast
  moreover have "(0::nat) < length ?h \<and> 1 < length ?h \<and> ?h ! 0 = IntList [3, 2] \<and> ?h ! 1 = LongTensor ?t"
    by simp
  with T have "create_mask_ref True 0 1 False ?h =
          (case create_mask True [3, 2] ?t False of
             Inl e \<Rightarrow> Inl e
           | Inr m \<Rightarrow> Inr (length ?h, ?h @ [ByteTensor m]))" by blast
  then have "create_mask_ref True 0 1 False ?h = Inr (2, ?h @ [ByteTensor m])"
    using m(1) by simp
  ultimately show ?thesis using m(1,2,3) by (simp add: of_rows_def)
qed

section \<open>Theorems: truncation of the gold labels\<close>

lemma mask_loop_shape_only:
  "size0 t1 = size0 t2 \<Longrightarrow> size1 t1 = size1 t2 \<Longrightarrow>
   mask_loop bf t1 xs m = mask_loop bf t2 xs m"
  by (induction xs arbitrary: m) auto

lemma create_mask_shape_only:
  "size0 t1 = size0 t2 \<Longrightarrow> size1 t1 = size1 t2 \<Longrightarrow>
   create_mask av sls t1 bf = create_mask av sls t2 bf"
  by (simp add: create_mask_def ones_def cuda_def mask_loop_shape_only[of t1 t2])

lemma accs_foldl_eval_sample:
  "accs (foldl (eval_sample gc) st xs) =
     accs st @ concat (map (\<lambda>(lab, lab_pred). map (\<lambda>(a, b). a = b) (zip lab lab_pred)) xs)"
  by (induction xs arbitrary: st) (auto simp: eval_sample_def Let_def)

lemma length_mask_targets:
  "length (mask_targets t sls False) = min (size1 t) (length sls)"
  by (simp add: mask_targets_def rows_def transpose_t_def)

lemma take_upt_min: "take p [0..<n] = [0..<min p n]"
  by (cases "p \<le> n") (simp_all add: min_def)

lemma nth_mask_targets:
  assumes "k < size1 t" "k < length sls"
  shows "mask_targets t sls False ! k = map (\<lambda>j. entry t j k) [0..<min (sls ! k) (size0 t)]"
  using assms
  by (simp add: mask_targets_def rows_def row_def transpose_t_def take_map take_upt_min)

lemma mask_targets_cong:
  assumes "size0 t1 = size0 t2" "size1 t1 = size1 t2"
    and "\<And>k j. k < length sls \<Longrightarrow> j < sls ! k \<Longrightarrow> entry t1 j k = entry t2 j k"
  shows "mask_targets t1 sls False = mask_targets t2 sls False"
proof (rule nth_equalityI)
  show "length (mask_targets t1 sls False) = length (mask_targets t2 sls False)"
    using assms(2) by (simp add: length_mask_targets)
next
  fix k assume "k < length (mask_targets t1 sls False)"
  then have k: "k < size1 t1" "k < length sls" by (simp_all add: length_mask_targets)
  then have k2: "k < size1 t2" using assms(2) by simp
  show "mask_targets t1 sls False ! k = mask_targets t2 sls False ! k"
    using assms(1) assms(3)[OF k(2)]
    by (simp add: nth_mask_targets[OF k] nth_mask_targets[OF k2 k(2)])
qed


lemma mask_targets_row:
  assumes "k < size0 lb" "k < length sls"
  shows "mask_targets (transpose_t lb) sls False ! k = take (sls ! k) (row lb k)"
  using assms
  by (simp add: mask_targets_def rows_def row_def transpose_t_def)

lemma accs_eval_samples_test_loss:
  "accs (eval_samples gc (st\<lparr>test_loss := x\<rparr>) mt ps) = accs (eval_samples gc (st\<lparr>test_loss := y\<rparr>) mt ps)"
  by (simp add: eval_samples_def accs_foldl_eval_sample)

lemma model_test_batch: "model (fst (snd (test_batch ex (s, st) ib))) = model s"
proof -
  obtain i b where ib: "ib = (i, b)" by (cases ib)
  show ?thesis
    by (simp add: test_batch_def ib Let_def info_def split: option.splits sum.splits)
qed

lemma model_test_loop: "model (fst (snd (test_loop ex acc ibs))) = model (fst acc)"
proof (induction ibs arbitrary: acc)
  case Nil
  then show ?case by simp
next
  case (Cons ib ibs)
  obtain s st where acc: "acc = (s, st)" by (cases acc)
  obtain e s' st' where r: "test_batch ex (s, st) ib = (e, (s', st'))" by (metis surj_pair)
  have m: "model s' = model s" using model_test_batch[of ex s st ib] r by simp
  show ?case
  proof (cases e)
    case None
    then show ?thesis using Cons.IH[of "(s', st')"] acc r m by simp
  next
    case (Some a)
    then show ?thesis using acc r m by simp
  qed
qed

lemma zip_nth_upt:
  "zip xs ys = map (\<lambda>k. (xs ! k, ys ! k)) [0..<min (length xs) (length ys)]"
  by (rule nth_equalityI) auto

lemma accs_test_batch_processed:
  assumes "size0 (word_ids b) \<noteq> 1" "char_ids b = Some ci"
    and "create_mask (cuda_available ex) (sequence_lengths b) (transpose_t (labels b)) False = Inr msk"
  shows "fst (test_batch ex (s, st) (i, b)) = None
     \<and> fst (snd (test_batch ex (s, st) (i, b))) = s
     \<and> accs (snd (snd (test_batch ex (s, st) (i, b)))) =
         accs st @ concat (map (\<lambda>k. map (\<lambda>(a, p). a = p)
                (zip (take (sequence_lengths b ! k) (row (labels b) k))
                     (decode ex (forward ex (state_dict (model s)) (training (model s)) (word_ids b) ci)
                        (Some msk) ! k)))
             [0..<min (min (size0 (labels b)) (length (sequence_lengths b)))
                      (length (decode ex (forward ex (state_dict (model s)) (training (model s))
                                 (word_ids b) ci) (Some msk)))])"
proof -
  let ?sls = "sequence_lengths b"
  let ?mt = "mask_targets (transpose_t (labels b)) ?sls False"
  let ?ps = "decode ex (forward ex (state_dict (model s)) (training (model s)) (word_ids b) ci) (Some msk)"
  let ?f = "\<lambda>(lab, lab_pred). map (\<lambda>(a, p). a = p) (zip lab lab_pred)"
  have len: "length ?mt = min (size0 (labels b)) (length ?sls)"
    by (simp add: length_mask_targets transpose_t_def)
  have "concat (map ?f (zip ?mt ?ps))
      = concat (map (\<lambda>k. ?f (?mt ! k, ?ps ! k)) [0..<min (length ?mt) (length ?ps)])"
    by (subst zip_nth_upt) (simp add: comp_def)
  also have "\<dots> = concat (map (\<lambda>k. map (\<lambda>(a, p). a = p)
                (zip (take (?sls ! k) (row (labels b) k)) (?ps ! k)))
             [0..<min (min (size0 (labels b)) (length ?sls)) (length ?ps)])"
    unfolding len
    by (rule arg_cong[where f = concat], rule map_cong) (simp_all add: mask_targets_row)
  finally have c: "concat (map ?f (zip ?mt ?ps))
      = concat (map (\<lambda>k. map (\<lambda>(a, p). a = p)
                (zip (take (?sls ! k) (row (labels b) k)) (?ps ! k)))
             [0..<min (min (size0 (labels b)) (length ?sls)) (length ?ps)])" .
  have t: "test_batch ex (s, st) (i, b) =
      (None, (s, eval_samples (get_chunks ex)
                   (st\<lparr>total_step := Some i,
                        test_loss := test_loss st
                          + - log_likelihood ex (forward ex (state_dict (model s)) (training (model s))
                                                  (word_ids b) ci) (transpose_t (labels b)) msk\<rparr>)
                   ?mt ?ps))"
    using assms by (simp add: test_batch_def Let_def)
  show ?thesis unfolding t
    by (simp add: eval_samples_def accs_foldl_eval_sample c)
qed

lemma accs_batch_pairs:
  "accs (snd (snd (test_batch ex (s, st) (i, b)))) =
     accs st @ concat (map (\<lambda>(lab, lab_pred). map (\<lambda>(a, p). a = p) (zip lab lab_pred))
                           (batch_pairs ex s b))"
  by (simp add: test_batch_def batch_pairs_def Let_def eval_samples_def accs_foldl_eval_sample
      split: option.splits sum.splits)

lemma accs_test_loop:
  "fst (test_loop ex (s, st) ibs) = None \<Longrightarrow>
   accs (snd (snd (test_loop ex (s, st) ibs))) =
     accs st @ concat (map (\<lambda>(lab, lab_pred). map (\<lambda>(a, p). a = p) (zip lab lab_pred))
                           (concat (map (\<lambda>ib. batch_pairs ex s (snd ib)) ibs)))"
proof (induction ibs arbitrary: s st)
  case Nil
  then show ?case by simp
next
  case (Cons ib ibs)
  obtain i b where ib: "ib = (i, b)" by (cases ib)
  obtain e s' st' where r: "test_batch ex (s, st) (i, b) = (e, (s', st'))" by (metis surj_pair)
  have e: "e = None" using Cons.prems r ib by (cases e) simp_all
  have m: "model s' = model s" using model_test_batch[of ex s st "(i, b)"] r by simp
  have bp: "batch_pairs ex s' = batch_pairs ex s" by (rule ext) (simp only: batch_pairs_def m)
  have c: "accs st' = accs st @ concat (map (\<lambda>(lab, lab_pred). map (\<lambda>(a, p). a = p) (zip lab lab_pred))
                           (batch_pairs ex s b))"
    using accs_batch_pairs[of ex s st i b] r by simp
  have rest: "fst (test_loop ex (s', st') ibs) = None" using Cons.prems r ib e by simp
  have "test_loop ex (s, st) (ib # ibs) = test_loop ex (s', st') ibs" using r ib e by simp
  then show ?case using Cons.IH[OF rest] c by (simp add: bp ib)
qed

text \<open>
  C2. For the time-major targets of a batch, \<open>mask_targets\<close> returns one sequence per
  sample that has a length, and the sequence of sample \<open>k\<close> is exactly the first
  \<open>sequence_lengths[k]\<close> label ids of that sample. An iteration of \<open>test\<close> that reaches
  the comparison appends to \<open>accs\<close>, for every sample \<open>k\<close>, the token-by-token
  comparison of that truncated sequence with the decoded prediction of \<open>k\<close>, and
  nothing else; over a whole run of the loop \<open>accs\<close> is the list of these comparisons
  for all evaluated samples. So no position at or after a sample's true length is
  counted: \<open>accs\<close> (and whether the iteration raises) is the same for any two label
  tensors of one shape that agree before each sample's true length, whatever tags the
  padded positions hold.
\<close>

theorem mask_targets_excludes_padding:
  assumes shape: "size0 labels' = size0 (labels b)" "size1 labels' = size1 (labels b)"
    and agree: "\<forall>k j. k < length (sequence_lengths b) \<longrightarrow> j < sequence_lengths b ! k \<longrightarrow>
                  entry labels' k j = entry (labels b) k j"
  shows "(\<forall>k. k < size0 (labels b) \<longrightarrow> k < length (sequence_lengths b) \<longrightarrow>
            mask_targets (transpose_t (labels b)) (sequence_lengths b) False ! k
              = take (sequence_lengths b ! k) (row (labels b) k))
       \<and> length (mask_targets (transpose_t (labels b)) (sequence_lengths b) False)
           = min (size0 (labels b)) (length (sequence_lengths b))
       \<and> fst (test_batch ex (s, st) (i, b\<lparr>labels := labels'\<rparr>)) = fst (test_batch ex (s, st) (i, b))
       \<and> accs (snd (snd (test_batch ex (s, st) (i, b\<lparr>labels := labels'\<rparr>))))
           = accs (snd (snd (test_batch ex (s, st) (i, b))))
       \<and> (size0 (word_ids b) \<noteq> 1 \<and> char_ids b = Some ci
            \<and> create_mask (cuda_available ex) (sequence_lengths b) (transpose_t (labels b)) False = Inr msk
          \<longrightarrow> fst (test_batch ex (s, st) (i, b)) = None
            \<and> fst (snd (test_batch ex (s, st) (i, b))) = s
            \<and> accs (snd (snd (test_batch ex (s, st) (i, b)))) =
                accs st @ concat (map (\<lambda>k. map (\<lambda>(a, p). a = p)
                    (zip (take (sequence_lengths b ! k) (row (labels b) k))
                         (decode ex (forward ex (state_dict (model s)) (training (model s)) (word_ids b) ci)
                            (Some msk) ! k)))
                  [0..<min (min (size0 (labels b)) (length (sequence_lengths b)))
                           (length (decode ex (forward ex (state_dict (model s)) (training (model s))
                                      (word_ids b) ci) (Some msk)))]))
       \<and> (fst (test_loop ex (s, eval_acc0) ibs) = None
          \<longrightarrow> accs (snd (snd (test_loop ex (s, eval_acc0) ibs))) =
                concat (map (\<lambda>(lab, lab_pred). map (\<lambda>(a, p). a = p) (zip lab lab_pred))
                            (concat (map (\<lambda>ib. batch_pairs ex s (snd ib)) ibs))))"
proof -
  let ?sls = "sequence_lengths b"
  let ?t = "transpose_t (labels b)" and ?t' = "transpose_t labels'"
  have sz: "size0 ?t' = size0 ?t" "size1 ?t' = size1 ?t"
    using shape by (simp_all add: transpose_t_def)
  have "\<And>k j. k < length ?sls \<Longrightarrow> j < ?sls ! k \<Longrightarrow> entry ?t' j k = entry ?t j k"
    using agree by (simp add: transpose_t_def)
  from mask_targets_cong[OF sz this]
  have mt: "mask_targets ?t' ?sls False = mask_targets ?t ?sls False" .
  have cm: "create_mask (cuda_available ex) ?sls ?t' False = create_mask (cuda_available ex) ?sls ?t False"
    by (rule create_mask_shape_only[OF sz])
  have 1: "\<forall>k. k < size0 (labels b) \<longrightarrow> k < length ?sls \<longrightarrow>
            mask_targets ?t ?sls False ! k = take (?sls ! k) (row (labels b) k)"
    by (simp add: mask_targets_row)
  have 2: "length (mask_targets ?t ?sls False) = min (size0 (labels b)) (length ?sls)"
    by (simp add: length_mask_targets transpose_t_def)
  have 3: "fst (test_batch ex (s, st) (i, b\<lparr>labels := labels'\<rparr>)) = fst (test_batch ex (s, st) (i, b))"
    by (simp add: test_batch_def Let_def cm mt split: option.splits sum.splits)
  have 4: "accs (snd (snd (test_batch ex (s, st) (i, b\<lparr>labels := labels'\<rparr>))))
           = accs (snd (snd (test_batch ex (s, st) (i, b))))"
    by (simp add: test_batch_def Let_def cm mt accs_eval_samples_test_loss
        eval_samples_def accs_foldl_eval_sample split: option.splits sum.splits)
  have 5: "size0 (word_ids b) \<noteq> 1 \<and> char_ids b = Some ci
            \<and> create_mask (cuda_available ex) ?sls ?t False = Inr msk
          \<longrightarrow> fst (test_batch ex (s, st) (i, b)) = None
            \<and> fst (snd (test_batch ex (s, st) (i, b))) = s
            \<and> accs (snd (snd (test_batch ex (s, st) (i, b)))) =
                accs st @ concat (map (\<lambda>k. map (\<lambda>(a, p). a = p)
                    (zip (take (?sls ! k) (row (labels b) k))
                         (decode ex (forward ex (state_dict (model s)) (training (model s)) (word_ids b) ci)
                            (Some msk) ! k)))
                  [0..<min (min (size0 (labels b)) (length ?sls))
                           (length (decode ex (forward ex (state_dict (model s)) (training (model s))
                                      (word_ids b) ci) (Some msk)))])"
    using accs_test_batch_processed[of b ci ex msk s st i] by blast
  have 6: "fst (test_loop ex (s, eval_acc0) ibs) = None
          \<longrightarrow> accs (snd (snd (test_loop ex (s, eval_acc0) ibs))) =
                concat (map (\<lambda>(lab, lab_pred). map (\<lambda>(a, p). a = p) (zip lab lab_pred))
                            (concat (map (\<lambda>ib. batch_pairs ex s (snd ib)) ibs)))"
    using accs_test_loop[of ex s eval_acc0 ibs] by (simp add: eval_acc0_def)
  from 1 2 3 4 5 6 show ?thesis by blast
qed

theorem mask_targets_excludes_padding_witness:
  "size0 labels1 = size0 (labels batch0) \<and> size1 labels1 = size1 (labels batch0)
   \<and> entry labels1 1 2 = entry (labels batch0) 1 2
   \<and> entry labels1 1 3 \<noteq> entry (labels batch0) 1 3
   \<and> mask_targets (transpose_t (labels batch0)) (sequence_lengths batch0) False ! 1
        = take 3 (row (labels batch0) 1)
   \<and> accs (snd (snd (test_batch ex0 (learner0, eval_acc0) (0, batch0\<lparr>labels := labels1\<rparr>))))
        = accs (snd (snd (test_batch ex0 (learner0, eval_acc0) (0, batch0))))
   \<and> accs (snd (snd (test_batch ex0 (learner0, eval_acc0) (0, batch0))))
        = [True, True, True, True, True, True, True, False]
   \<and> accs (snd (snd (test_batch ex0 (learner0, eval_acc0) (0, batch0\<lparr>labels := labels1\<rparr>))))
        = [True, True, True, True, True, True, True, False]
   \<and> accs (snd (snd (test_loop ex0 (learner0, eval_acc0) [(0, batch0), (1, batch0)])))
        = [True, True, True, True, True, True, True, False,
           True, True, True, True, True, True, True, False]"
proof -
  have h1: "size0 labels1 = size0 (labels batch0)" "size1 labels1 = size1 (labels batch0)"
    by (simp_all add: labels1_def batch0_def of_rows_def)
  have h2: "\<forall>k j. k < length (sequence_lengths batch0) \<longrightarrow> j < sequence_lengths batch0 ! k \<longrightarrow>
          entry labels1 k j = entry (labels batch0) k j"
  proof (intro allI impI)
    fix k j :: nat
    assume "k < length (sequence_lengths batch0)" and j: "j < sequence_lengths batch0 ! k"
    then have "k = 0 \<or> k = 1" by (auto simp: batch0_def)
    then show "entry labels1 k j = entry (labels batch0) k j"
    proof
      assume "k = 0"
      then show ?thesis by (simp add: labels1_def batch0_def of_rows_def)
    next
      assume k: "k = 1"
      with j have "j < 3" by (simp add: batch0_def)
      then have "j = 0 \<or> j = 1 \<or> j = 2" by auto
      then show ?thesis using k by (auto simp: labels1_def batch0_def of_rows_def)
    qed
  qed
  have h3: "entry labels1 1 3 \<noteq> entry (labels batch0) 1 3"
    by (simp add: labels1_def batch0_def of_rows_def)
  have h4: "entry labels1 1 2 = entry (labels batch0) 1 2"
    by (simp add: labels1_def batch0_def of_rows_def)
  have k1: "(1::nat) < size0 (labels batch0)" "(1::nat) < length (sequence_lengths batch0)"
    by (simp_all add: batch0_def of_rows_def)
  have s3: "sequence_lengths batch0 ! 1 = 3" by (simp add: batch0_def)
  note T = mask_targets_excludes_padding[OF h1 h2, of ex0 learner0 eval_acc0 0 "[]"
      "ones (transpose_t (labels batch0))" "[(0, batch0), (1, batch0)]"]
  have a: "mask_targets (transpose_t (labels batch0)) (sequence_lengths batch0) False ! 1
        = take 3 (row (labels batch0) 1)"
    using T k1 s3 by simp
  have b: "accs (snd (snd (test_batch ex0 (learner0, eval_acc0) (0, batch0\<lparr>labels := labels1\<rparr>))))
        = accs (snd (snd (test_batch ex0 (learner0, eval_acc0) (0, batch0))))"
    using T by blast
  have c: "accs (snd (snd (test_batch ex0 (learner0, eval_acc0) (0, batch0))))
        = [True, True, True, True, True, True, True, False]" by code_simp
  have n: "fst (test_loop ex0 (learner0, eval_acc0) [(0, batch0), (1, batch0)]) = None" by code_simp
  have p: "concat (map (\<lambda>(lab, lab_pred). map (\<lambda>(a, p). a = p) (zip lab lab_pred))
                            (concat (map (\<lambda>ib. batch_pairs ex0 learner0 (snd ib)) [(0, batch0), (1, batch0)])))
        = [True, True, True, True, True, True, True, False,
           True, True, True, True, True, True, True, False]" by code_simp
  have d: "accs (snd (snd (test_loop ex0 (learner0, eval_acc0) [(0, batch0), (1, batch0)])))
        = [True, True, True, True, True, True, True, False,
           True, True, True, True, True, True, True, False]"
    using T n p by simp
  show ?thesis using h1 h3 h4 a b c d by simp
qed

section \<open>Theorems: precision, recall and F1\<close>

lemma counts_ok_eval_sample: "counts_ok st \<Longrightarrow> counts_ok (eval_sample gc st lp)"
proof -
  assume a: "counts_ok st"
  obtain lab lab_pred where lp: "lp = (lab, lab_pred)" by (cases lp)
  have "card (set (gc lab) \<inter> set (gc lab_pred)) \<le> card (set (gc lab_pred))"
    by (rule card_mono) auto
  moreover have "card (set (gc lab) \<inter> set (gc lab_pred)) \<le> card (set (gc lab))"
    by (rule card_mono) auto
  ultimately show ?thesis using a by (simp add: counts_ok_def eval_sample_def lp Let_def)
qed

lemma counts_ok_foldl: "counts_ok st \<Longrightarrow> counts_ok (foldl (eval_sample gc) st xs)"
  by (induction xs arbitrary: st) (simp_all add: counts_ok_eval_sample)

lemma counts_ok_test_batch: "counts_ok st \<Longrightarrow> counts_ok (snd (snd (test_batch ex (s, st) ib)))"
proof -
  assume a: "counts_ok st"
  have b: "\<And>x y. counts_ok (st\<lparr>total_step := x, test_loss := y\<rparr>)" "\<And>x. counts_ok (st\<lparr>total_step := x\<rparr>)"
    using a by (simp_all add: counts_ok_def)
  obtain i b where ib: "ib = (i, b)" by (cases ib)
  show ?thesis
    by (simp add: test_batch_def ib Let_def eval_samples_def a b counts_ok_foldl
        split: option.splits sum.splits)
qed

lemma counts_ok_test_loop:
  "counts_ok (snd acc) \<Longrightarrow> counts_ok (snd (snd (test_loop ex acc ibs)))"
proof (induction ibs arbitrary: acc)
  case Nil
  then show ?case by simp
next
  case (Cons ib ibs)
  obtain s st where acc: "acc = (s, st)" by (cases acc)
  obtain e s' st' where r: "test_batch ex (s, st) ib = (e, (s', st'))"
    by (metis surj_pair)
  have ok: "counts_ok st'" using counts_ok_test_batch[of st ex s ib] Cons.prems acc r by simp
  show ?case
  proof (cases e)
    case None
    then show ?thesis using Cons.IH[of "(s', st')"] ok acc r by simp
  next
    case (Some a)
    then show ?thesis using ok acc r by simp
  qed
qed

lemma final_scores_zero: "final_scores 0 tp tc = Inr (0, 0, 0)"
  by (simp add: final_scores_def)

lemma final_scores_pos:
  assumes "0 < cp" "cp \<le> tp" "cp \<le> tc"
  shows "final_scores cp tp tc =
     Inr (real cp / real tp, real cp / real tc,
          2 * (real cp / real tp) * (real cp / real tc) / (real cp / real tp + real cp / real tc))"
proof -
  have tp: "real tp \<noteq> 0" and tc: "real tc \<noteq> 0" using assms by auto
  have "0 < real cp / real tp" "0 < real cp / real tc" using assms by simp_all
  then have "real cp / real tp + real cp / real tc \<noteq> 0" by linarith
  then show ?thesis using assms(1) tp tc by (simp add: final_scores_def py_truediv_def)
qed

lemma correct_preds_foldl:
  "correct_preds (foldl (eval_sample gc) st xs) =
     correct_preds st + (\<Sum>(lab, lab_pred)\<leftarrow>xs. card (set (gc lab) \<inter> set (gc lab_pred)))"
  by (induction xs arbitrary: st) (auto simp: eval_sample_def Let_def)

lemma total_preds_foldl:
  "total_preds (foldl (eval_sample gc) st xs) =
     total_preds st + (\<Sum>(lab, lab_pred)\<leftarrow>xs. card (set (gc lab_pred)))"
  by (induction xs arbitrary: st) (auto simp: eval_sample_def Let_def)

lemma total_correct_foldl:
  "total_correct (foldl (eval_sample gc) st xs) =
     total_correct st + (\<Sum>(lab, lab_pred)\<leftarrow>xs. card (set (gc lab)))"
  by (induction xs arbitrary: st) (auto simp: eval_sample_def Let_def)

lemma mask_loop_error: "mask_loop bf t xs m = Inl e \<Longrightarrow> e = IndexError"
  by (induction xs arbitrary: m) (auto split: if_splits)

lemma create_mask_error: "create_mask av sls t bf = Inl e \<Longrightarrow> e = IndexError \<or> e = CudaError"
  by (auto simp: create_mask_def cuda_def split: if_splits dest: mask_loop_error)

lemma test_batch_error: "fst (test_batch ex acc ib) \<noteq> Some ZeroDivisionError"
proof -
  obtain s st i b where a: "acc = (s, st)" "ib = (i, b)" by (metis surj_pair)
  show ?thesis
    by (auto simp: test_batch_def a Let_def split: option.splits sum.splits dest: create_mask_error)
qed

lemma test_loop_error: "fst (test_loop ex acc ibs) \<noteq> Some ZeroDivisionError"
proof (induction ibs arbitrary: acc)
  case Nil
  then show ?case by simp
next
  case (Cons ib ibs)
  obtain e acc' where r: "test_batch ex acc ib = (e, acc')" by (cases "test_batch ex acc ib")
  show ?case
  proof (cases e)
    case None
    then show ?thesis using Cons.IH[of acc'] r by simp
  next
    case (Some a)
    then show ?thesis using test_batch_error[of ex acc ib] r by simp
  qed
qed


lemma chunk_counts_append:
  "chunk_counts gc (xs @ ys) =
     (fst (chunk_counts gc xs) + fst (chunk_counts gc ys),
      fst (snd (chunk_counts gc xs)) + fst (snd (chunk_counts gc ys)),
      snd (snd (chunk_counts gc xs)) + snd (snd (chunk_counts gc ys)))"
  by (simp add: chunk_counts_def)

lemma counts_of_foldl:
  "counts_of (foldl (eval_sample gc) st xs) =
     (correct_preds st + fst (chunk_counts gc xs),
      total_preds st + fst (snd (chunk_counts gc xs)),
      total_correct st + snd (snd (chunk_counts gc xs)))"
  by (simp add: counts_of_def chunk_counts_def correct_preds_foldl total_preds_foldl total_correct_foldl)

lemma counts_of_test_batch:
  "counts_of (snd (snd (test_batch ex (s, st) (i, b)))) =
     (correct_preds st + fst (chunk_counts (get_chunks ex) (batch_pairs ex s b)),
      total_preds st + fst (snd (chunk_counts (get_chunks ex) (batch_pairs ex s b))),
      total_correct st + snd (snd (chunk_counts (get_chunks ex) (batch_pairs ex s b))))"
proof -
  let ?st' = "snd (snd (test_batch ex (s, st) (i, b)))"
  let ?ps = "batch_pairs ex s b"
  have 1: "correct_preds ?st' = correct_preds st
             + (\<Sum>(lab, lab_pred)\<leftarrow>?ps. card (set (get_chunks ex lab) \<inter> set (get_chunks ex lab_pred)))"
    by (simp add: test_batch_def batch_pairs_def Let_def eval_samples_def correct_preds_foldl
        split: option.splits sum.splits)
  have 2: "total_preds ?st' = total_preds st
             + (\<Sum>(lab, lab_pred)\<leftarrow>?ps. card (set (get_chunks ex lab_pred)))"
    by (simp add: test_batch_def batch_pairs_def Let_def eval_samples_def total_preds_foldl
        split: option.splits sum.splits)
  have 3: "total_correct ?st' = total_correct st
             + (\<Sum>(lab, lab_pred)\<leftarrow>?ps. card (set (get_chunks ex lab)))"
    by (simp add: test_batch_def batch_pairs_def Let_def eval_samples_def total_correct_foldl
        split: option.splits sum.splits)
  show ?thesis unfolding counts_of_def chunk_counts_def using 1 2 3 by simp
qed

lemma counts_of_test_loop:
  "fst (test_loop ex (s, st) ibs) = None \<Longrightarrow>
   counts_of (snd (snd (test_loop ex (s, st) ibs))) =
     (correct_preds st + fst (chunk_counts (get_chunks ex) (concat (map (\<lambda>ib. batch_pairs ex s (snd ib)) ibs))),
      total_preds st + fst (snd (chunk_counts (get_chunks ex) (concat (map (\<lambda>ib. batch_pairs ex s (snd ib)) ibs)))),
      total_correct st + snd (snd (chunk_counts (get_chunks ex) (concat (map (\<lambda>ib. batch_pairs ex s (snd ib)) ibs)))))"
proof (induction ibs arbitrary: s st)
  case Nil
  then show ?case by (simp add: counts_of_def chunk_counts_def)
next
  case (Cons ib ibs)
  obtain i b where ib: "ib = (i, b)" by (cases ib)
  obtain e s' st' where r: "test_batch ex (s, st) (i, b) = (e, (s', st'))" by (metis surj_pair)
  have e: "e = None" using Cons.prems r ib by (cases e) simp_all
  have m: "model s' = model s" using model_test_batch[of ex s st "(i, b)"] r by simp
  have bp: "batch_pairs ex s' = batch_pairs ex s" by (rule ext) (simp only: batch_pairs_def m)
  have c: "counts_of st' =
     (correct_preds st + fst (chunk_counts (get_chunks ex) (batch_pairs ex s b)),
      total_preds st + fst (snd (chunk_counts (get_chunks ex) (batch_pairs ex s b))),
      total_correct st + snd (snd (chunk_counts (get_chunks ex) (batch_pairs ex s b))))"
    using counts_of_test_batch[of ex s st i b] r by simp
  have rest: "fst (test_loop ex (s', st') ibs) = None" using Cons.prems r ib e by simp
  have "test_loop ex (s, st) (ib # ibs) = test_loop ex (s', st') ibs" using r ib e by simp
  then show ?case using Cons.IH[OF rest] c
    by (simp add: bp ib chunk_counts_append counts_of_def)
qed

lemma test_no_zero_division: "fst (test ex s nb gen ft) \<noteq> Some ZeroDivisionError"
proof -
  let ?s1 = "s\<lparr>model := (model s)\<lparr>training := False\<rparr>\<rparr>"
  let ?ibs = "enumerate 0 (map gen [0..<nb])"
  obtain e s2 st where r: "test_loop ex (?s1, eval_acc0) ?ibs = (e, (s2, st))"
    by (metis surj_pair)
  have ok: "counts_ok st"
    using counts_ok_test_loop[of "(?s1, eval_acc0)" ex ?ibs] r
    by (simp add: counts_ok_def eval_acc0_def)
  have ne: "e \<noteq> Some ZeroDivisionError" using test_loop_error[of ex "(?s1, eval_acc0)" ?ibs] r by simp
  have fs: "\<exists>p r f1. final_scores (correct_preds st) (total_preds st) (total_correct st) = Inr (p, r, f1)"
  proof (cases "correct_preds st = 0")
    case True
    then show ?thesis by (simp add: final_scores_zero)
  next
    case False
    then show ?thesis using final_scores_pos[of "correct_preds st" "total_preds st" "total_correct st"] ok
      by (simp add: counts_ok_def)
  qed
  then obtain p r' f1 where fs': "final_scores (correct_preds st) (total_preds st) (total_correct st) = Inr (p, r', f1)"
    by blast
  show ?thesis using ne
    by (cases e; cases "total_step st") (simp_all add: test_def Let_def r fs')
qed

text \<open>
  C3. When the loop of \<open>test\<close> has run through its batches, \<open>correct_preds\<close>,
  \<open>total_preds\<close> and \<open>total_correct\<close> are the sums, over all evaluated samples, of the
  sizes of the intersection, of the predicted and of the gold chunk set. On the
  accumulated counts (also of a loop that stopped early) the final expressions give
  precision \<open>cp/tp\<close>, recall \<open>cp/tc\<close> and \<open>F1 = 2pr/(p+r)\<close> when \<open>cp > 0\<close> (all three
  divisors are then non-zero), and exactly \<open>0\<close>, \<open>0\<close>, \<open>0\<close> when \<open>cp = 0\<close>; \<open>test\<close> never
  raises a division by zero.
\<close>

theorem final_scores_of_evaluation:
  "(let st = snd (snd (test_loop ex (s, eval_acc0) ibs));
        cp = correct_preds st; tp = total_preds st; tc = total_correct st
    in (fst (test_loop ex (s, eval_acc0) ibs) = None \<longrightarrow>
          (cp, tp, tc) = chunk_counts (get_chunks ex) (concat (map (\<lambda>ib. batch_pairs ex s (snd ib)) ibs)))
       \<and> final_scores cp tp tc =
            Inr (if cp > 0
                 then (real cp / real tp, real cp / real tc,
                       2 * (real cp / real tp) * (real cp / real tc)
                         / (real cp / real tp + real cp / real tc))
                 else (0, 0, 0))
       \<and> (cp > 0 \<longrightarrow> tp > 0 \<and> tc > 0 \<and> real cp / real tp + real cp / real tc \<noteq> 0))
   \<and> fst (test ex s nb gen ft) \<noteq> Some ZeroDivisionError"
proof -
  let ?st = "snd (snd (test_loop ex (s, eval_acc0) ibs))"
  have ok: "counts_ok ?st"
    using counts_ok_test_loop[of "(s, eval_acc0)" ex ibs] by (simp add: counts_ok_def eval_acc0_def)
  have S: "fst (test_loop ex (s, eval_acc0) ibs) = None \<longrightarrow>
      (correct_preds ?st, total_preds ?st, total_correct ?st)
        = chunk_counts (get_chunks ex) (concat (map (\<lambda>ib. batch_pairs ex s (snd ib)) ibs))"
  proof
    assume "fst (test_loop ex (s, eval_acc0) ibs) = None"
    from counts_of_test_loop[OF this]
    show "(correct_preds ?st, total_preds ?st, total_correct ?st)
        = chunk_counts (get_chunks ex) (concat (map (\<lambda>ib. batch_pairs ex s (snd ib)) ibs))"
      by (simp add: counts_of_def eval_acc0_def)
  qed
  have A: "final_scores (correct_preds ?st) (total_preds ?st) (total_correct ?st) =
            Inr (if correct_preds ?st > 0
                 then (real (correct_preds ?st) / real (total_preds ?st),
                       real (correct_preds ?st) / real (total_correct ?st),
                       2 * (real (correct_preds ?st) / real (total_preds ?st))
                         * (real (correct_preds ?st) / real (total_correct ?st))
                         / (real (correct_preds ?st) / real (total_preds ?st)
                            + real (correct_preds ?st) / real (total_correct ?st)))
                 else (0, 0, 0))"
  proof (cases "correct_preds ?st = 0")
    case True
    then show ?thesis by (simp add: final_scores_zero)
  next
    case False
    then show ?thesis
      using final_scores_pos[of "correct_preds ?st" "total_preds ?st" "total_correct ?st"] ok
      by (simp add: counts_ok_def)
  qed
  have B: "correct_preds ?st > 0 \<longrightarrow> total_preds ?st > 0 \<and> total_correct ?st > 0
            \<and> real (correct_preds ?st) / real (total_preds ?st)
              + real (correct_preds ?st) / real (total_correct ?st) \<noteq> 0"
  proof
    assume pos: "correct_preds ?st > 0"
    then have t: "total_preds ?st > 0" "total_correct ?st > 0" using ok by (simp_all add: counts_ok_def)
    have "0 < real (correct_preds ?st) / real (total_preds ?st)"
      "0 < real (correct_preds ?st) / real (total_correct ?st)" using pos t by simp_all
    then have "real (correct_preds ?st) / real (total_preds ?st)
              + real (correct_preds ?st) / real (total_correct ?st) \<noteq> 0" by linarith
    then show "total_preds ?st > 0 \<and> total_correct ?st > 0
            \<and> real (correct_preds ?st) / real (total_preds ?st)
              + real (correct_preds ?st) / real (total_correct ?st) \<noteq> 0" using t by simp
  qed
  show ?thesis
    unfolding Let_def
    using S A B test_no_zero_division[of ex s nb gen ft]
    by blast
qed

theorem final_scores_of_evaluation_witness:
  "fst (test_loop ex0 (learner0, eval_acc0) [(0, batch0)]) = None
   \<and> chunk_counts (get_chunks ex0) (batch_pairs ex0 learner0 batch0) = (4, 4, 5)
   \<and> correct_preds (snd (snd (test_loop ex0 (learner0, eval_acc0) [(0, batch0)]))) = 4
   \<and> total_preds (snd (snd (test_loop ex0 (learner0, eval_acc0) [(0, batch0)]))) = 4
   \<and> total_correct (snd (snd (test_loop ex0 (learner0, eval_acc0) [(0, batch0)]))) = 5
   \<and> final_scores 4 4 5 = Inr (1, 4 / 5, 8 / 9)
   \<and> final_scores 0 3 2 = Inr (0, 0, 0)"
proof -
  let ?st = "snd (snd (test_loop ex0 (learner0, eval_acc0) [(0, batch0)]))"
  have n: "fst (test_loop ex0 (learner0, eval_acc0) [(0, batch0)]) = None" by code_simp
  have cc: "chunk_counts (get_chunks ex0) (batch_pairs ex0 learner0 batch0) = (4, 4, 5)" by code_simp
  note T = final_scores_of_evaluation[of ex0 learner0 "[(0, batch0)]" 0 "\<lambda>i. batch0" False]
  note T1 = T[unfolded Let_def, THEN conjunct1, THEN conjunct1, THEN mp, OF n]
  then have c: "correct_preds ?st = 4" "total_preds ?st = 4" "total_correct ?st = 5"
    using cc by simp_all
  from T[unfolded Let_def, THEN conjunct1, THEN conjunct2, THEN conjunct1]
  have "final_scores (correct_preds ?st) (total_preds ?st) (total_correct ?st) =
       Inr (if correct_preds ?st > 0
            then (real (correct_preds ?st) / real (total_preds ?st),
                  real (correct_preds ?st) / real (total_correct ?st),
                  2 * (real (correct_preds ?st) / real (total_preds ?st))
                    * (real (correct_preds ?st) / real (total_correct ?st))
                    / (real (correct_preds ?st) / real (total_preds ?st)
                       + real (correct_preds ?st) / real (total_correct ?st)))
            else (0, 0, 0))" .
  then have "final_scores 4 4 5 = Inr (1, 4 / 5, 8 / 9)"
    unfolding c by simp
  moreover have "final_scores 0 3 2 = Inr (0, 0, 0)" by (simp add: final_scores_def)
  ultimately show ?thesis using n cc c by simp
qed

section \<open>Theorems: checkpoint loading\<close>

lemma strip_raw: "take (length (n @ ''_raw'') - 4) (n @ ''_raw'') = n"
  by simp

lemma raw_neq: "n @ ''_raw'' \<noteq> n"
  by simp

lemma rename_step_map:
  assumes "map_of sd n \<noteq> None"
  shows "\<exists>sd'. rename_step names n sd = Inr sd' \<and>
           map_of sd' = (if n \<notin> names \<and> n @ ''_raw'' \<in> names
                         then ((if map_of sd (n @ ''_raw'') = None
                                then (map_of sd)(n @ ''_raw'' := map_of sd n) else map_of sd))(n := None)
                         else map_of sd)"
proof (cases "n \<notin> names \<and> n @ ''_raw'' \<in> names")
  case False
  then show ?thesis by (auto simp: rename_step_def)
next
  case True
  from assms obtain v where v: "map_of sd n = Some v" by auto
  show ?thesis
  proof (cases "map_of sd (n @ ''_raw'') = None")
    case None: True
    have "map_of (AList.update (n @ ''_raw'') v sd) n = Some v"
      using v by (simp add: update_conv')
    then show ?thesis using True None v
      by (simp add: rename_step_def update_conv' delete_conv')
  next
    case False
    then show ?thesis using True v
      by (auto simp: rename_step_def delete_conv')
  qed
qed


lemma rename_spec_Nil: "rename_spec names [] m = m"
  by (rule ext) (simp add: rename_spec_def split: option.splits)

lemma rename_spec_skip:
  assumes "\<not> (n \<notin> names \<and> n @ ''_raw'' \<in> names)"
  shows "rename_spec names (n # ks) m = rename_spec names ks m"
proof (rule ext)
  fix k
  show "rename_spec names (n # ks) m k = rename_spec names ks m k"
    using assms by (auto simp: rename_spec_def split: option.splits)
qed

lemma rename_spec_move:
  assumes c: "n \<notin> names" "n @ ''_raw'' \<in> names" and d: "n \<notin> set ks" and v: "m n = Some v"
  shows "rename_spec names ks
           (((if m (n @ ''_raw'') = None then m(n @ ''_raw'' := m n) else m))(n := None))
         = rename_spec names (n # ks) m"
proof (rule ext)
  fix k
  let ?m1 = "((if m (n @ ''_raw'') = None then m(n @ ''_raw'' := m n) else m))(n := None)"
  consider (a) "k = n" | (b) "k \<noteq> n" "k = n @ ''_raw''" | (c) "k \<noteq> n" "k \<noteq> n @ ''_raw''" by blast
  then show "rename_spec names ks ?m1 k = rename_spec names (n # ks) m k"
  proof cases
    case a
    then show ?thesis using c d by (simp add: rename_spec_def)
  next
    case b
    have notdel: "\<not> (k \<in> set ks \<and> k \<notin> names \<and> k @ ''_raw'' \<in> names)" using b c by simp
    have strip: "take (length k - 4) k = n" using b by simp
    show ?thesis
    proof (cases "m (n @ ''_raw'')")
      case None
      then have "?m1 k = Some v" using b v by simp
      moreover have "m k = None" using None b by simp
      ultimately show ?thesis using b c v strip by (simp add: rename_spec_def)
    next
      case (Some u)
      then have "?m1 k = Some u" "m k = Some u" using b by simp_all
      then show ?thesis using b c by (simp add: rename_spec_def)
    qed
  next
    case c2: c
    have m1k: "?m1 k = m k" using c2 by simp
    show ?thesis
    proof (cases "k \<in> set ks \<and> k \<notin> names \<and> k @ ''_raw'' \<in> names")
      case True
      then show ?thesis by (simp add: rename_spec_def)
    next
      case False
      show ?thesis
      proof (cases "m k")
        case (Some u)
        then show ?thesis using False c2 m1k by (simp add: rename_spec_def)
      next
        case None
        show ?thesis
        proof (cases "k \<in> names \<and> (\<exists>n' \<in> set ks. n' \<notin> names \<and> n' @ ''_raw'' = k)")
          case True
          then obtain n' where n': "n' \<in> set ks" "n' \<notin> names" "n' @ ''_raw'' = k" by blast
          have strip: "take (length k - 4) k = n'" using n'(3) by auto
          have "n' \<noteq> n" using n'(1) d by auto
          moreover have "n' \<noteq> n @ ''_raw''" using n'(2) c(2) by auto
          ultimately have "?m1 n' = m n'" by simp
          then show ?thesis using False None m1k True c2 strip
            by (simp add: rename_spec_def)
        next
          case F2: False
          then show ?thesis using False None m1k c2
            by (auto simp: rename_spec_def)
        qed
      qed
    qed
  qed
qed

lemma rename_loop_map:
  assumes "distinct ks" "\<forall>n\<in>set ks. map_of sd n \<noteq> None"
  shows "\<exists>sd'. rename_loop names ks sd = Inr sd' \<and> map_of sd' = rename_spec names ks (map_of sd)"
  using assms
proof (induction ks arbitrary: sd)
  case Nil
  then show ?case by (simp add: rename_spec_Nil)
next
  case (Cons n ks)
  have n: "map_of sd n \<noteq> None" "n \<notin> set ks" "distinct ks" using Cons.prems by auto
  then obtain v where v: "map_of sd n = Some v" by auto
  from rename_step_map[OF n(1), of names] obtain sd1 where
    s1: "rename_step names n sd = Inr sd1"
    "map_of sd1 = (if n \<notin> names \<and> n @ ''_raw'' \<in> names
                         then ((if map_of sd (n @ ''_raw'') = None
                                then (map_of sd)(n @ ''_raw'' := map_of sd n) else map_of sd))(n := None)
                         else map_of sd)" by blast
  have dom1: "\<forall>n'\<in>set ks. map_of sd1 n' \<noteq> None"
  proof
    fix n' assume a: "n' \<in> set ks"
    then have "n' \<noteq> n" "map_of sd n' \<noteq> None" using n(2) Cons.prems(2) by auto
    then show "map_of sd1 n' \<noteq> None" unfolding s1(2) by auto
  qed
  from Cons.IH[OF n(3) dom1] obtain sd' where
    s': "rename_loop names ks sd1 = Inr sd'" "map_of sd' = rename_spec names ks (map_of sd1)" by blast
  have "rename_spec names ks (map_of sd1) = rename_spec names (n # ks) (map_of sd)"
  proof (cases "n \<notin> names \<and> n @ ''_raw'' \<in> names")
    case True
    have "map_of sd1 = ((if map_of sd (n @ ''_raw'') = None
                                then (map_of sd)(n @ ''_raw'' := map_of sd n) else map_of sd))(n := None)"
      unfolding s1(2) using True by auto
    then show ?thesis using rename_spec_move[of n names ks "map_of sd" v] True n(2) v by simp
  next
    case False
    have "map_of sd1 = map_of sd" unfolding s1(2) using False by auto
    then show ?thesis using rename_spec_skip[OF False, of ks "map_of sd"] by simp
  qed
  then show ?case using s1(1) s' by simp
qed


lemma load_ner_model_char:
  assumes "distinct (map fst sd)"
  shows "load_ner_model own sd strict =
     (if strict \<and> ((\<exists>n \<in> set (map fst own). rename_spec (set (map fst own)) (map fst sd) (map_of sd) n = None)
                   \<or> (\<exists>k. rename_spec (set (map fst own)) (map fst sd) (map_of sd) k \<noteq> None
                           \<and> k \<notin> set (map fst own)))
      then Some StrictKeyError else None,
      map (\<lambda>(n, v). (n, case rename_spec (set (map fst own)) (map fst sd) (map_of sd) n of
                           Some v' \<Rightarrow> v' | None \<Rightarrow> v)) own)"
proof -
  let ?names = "set (map fst own)"
  have "\<forall>n\<in>set (map fst sd). map_of sd n \<noteq> None"
    by (auto simp: map_of_eq_None_iff)
  from rename_loop_map[OF assms this, of ?names] obtain sd' where
    s': "rename_loop ?names (map fst sd) sd = Inr sd'"
    "map_of sd' = rename_spec ?names (map fst sd) (map_of sd)" by blast
  have miss: "(filter (\<lambda>n. map_of sd' n = None) (map fst own) \<noteq> [])
      = (\<exists>n \<in> ?names. map_of sd' n = None)"
    by (simp add: filter_empty_conv del: set_map)
  have keys: "k \<in> set (map fst sd') \<longleftrightarrow> map_of sd' k \<noteq> None" for k
    by (simp add: map_of_eq_None_iff)
  have unex: "(filter (\<lambda>k. k \<notin> ?names) (map fst sd') \<noteq> [])
      = (\<exists>k. map_of sd' k \<noteq> None \<and> k \<notin> ?names)"
    unfolding filter_empty_conv using keys by blast
  have "load_ner_model own sd strict = load_state_dict own sd' strict"
    by (simp add: load_ner_model_def Let_def s' del: set_map)
  also have "\<dots> =
     (if strict \<and> ((\<exists>n \<in> ?names. map_of sd' n = None) \<or> (\<exists>k. map_of sd' k \<noteq> None \<and> k \<notin> ?names))
      then Some StrictKeyError else None,
      map (\<lambda>(n, v). (n, case map_of sd' n of Some v' \<Rightarrow> v' | None \<Rightarrow> v)) own)"
    unfolding load_state_dict_def Let_def miss unex by (rule refl)
  finally show ?thesis unfolding s'(2) .
qed





text \<open>
  C5 (amended). The renaming goes one way only. A checkpoint key \<open>n\<close> that is not a
  live name while \<open>n_raw\<close> is one, and is not yet in the checkpoint, is moved to
  \<open>n_raw\<close>. A checkpoint key \<open>x_raw\<close> whose plain name \<open>x\<close> is the live one stays where it
  is, \<open>x\<close> gets no entry from it, and the strict load raises.
\<close>

theorem rename_is_one_directional:
  assumes d: "distinct (map fst sd)"
  shows "(\<forall>n. n \<in> set (map fst sd) \<and> n \<notin> set (map fst own) \<and> n @ ''_raw'' \<in> set (map fst own)
              \<and> map_of sd (n @ ''_raw'') = None
            \<longrightarrow> (\<exists>sd'. rename_loop (set (map fst own)) (map fst sd) sd = Inr sd'
                    \<and> map_of sd' (n @ ''_raw'') = map_of sd n \<and> map_of sd' n = None))
       \<and> (x \<in> set (map fst own) \<and> x @ ''_raw'' \<notin> set (map fst own)
              \<and> x @ ''_raw'' @ ''_raw'' \<notin> set (map fst own)
              \<and> map_of sd (x @ ''_raw'') = Some v \<and> map_of sd x = None
              \<and> (\<forall>k \<in> set (map fst sd). k \<in> set (map fst own) \<or> k @ ''_raw'' \<noteq> x)
            \<longrightarrow> (\<exists>sd'. rename_loop (set (map fst own)) (map fst sd) sd = Inr sd'
                    \<and> map_of sd' (x @ ''_raw'') = Some v \<and> map_of sd' x = None)
                \<and> fst (load_ner_model own sd True) = Some StrictKeyError)"
proof -
  let ?names = "set (map fst own)"
  let ?R = "rename_spec ?names (map fst sd) (map_of sd)"
  have "\<forall>n\<in>set (map fst sd). map_of sd n \<noteq> None"
    by (auto simp: map_of_eq_None_iff)
  from rename_loop_map[OF d this, of ?names] obtain sd' where
    s': "rename_loop ?names (map fst sd) sd = Inr sd'" "map_of sd' = ?R" by blast
  have fwd: "?R (n @ ''_raw'') = map_of sd n \<and> ?R n = None"
    if n: "n \<in> set (map fst sd) \<and> n \<notin> ?names \<and> n @ ''_raw'' \<in> ?names \<and> map_of sd (n @ ''_raw'') = None" for n
  proof -
    have n1: "n \<in> set (map fst sd)" and n2: "n \<notin> ?names" and n3: "n @ ''_raw'' \<in> ?names"
      and n4: "map_of sd (n @ ''_raw'') = None" using n by blast+
    have "\<exists>k \<in> set (map fst sd). k \<notin> ?names \<and> k @ ''_raw'' = n @ ''_raw''" using n1 n2 by blast
    moreover have "take (length (n @ ''_raw'') - 4) (n @ ''_raw'') = n" by simp
    ultimately have "?R (n @ ''_raw'') = map_of sd n"
      using n3 n4 unfolding rename_spec_def by (simp del: set_map)
    moreover have "?R n = None" using n1 n2 n3 unfolding rename_spec_def by (simp del: set_map)
    ultimately show ?thesis by blast
  qed
  have bwd: "?R (x @ ''_raw'') = Some v \<and> ?R x = None \<and> fst (load_ner_model own sd True) = Some StrictKeyError"
    if x: "x \<in> ?names \<and> x @ ''_raw'' \<notin> ?names \<and> x @ ''_raw'' @ ''_raw'' \<notin> ?names
              \<and> map_of sd (x @ ''_raw'') = Some v \<and> map_of sd x = None
              \<and> (\<forall>k \<in> set (map fst sd). k \<in> ?names \<or> k @ ''_raw'' \<noteq> x)"
  proof -
    have x1: "x \<in> ?names" and x2: "x @ ''_raw'' \<notin> ?names" and x3: "(x @ ''_raw'') @ ''_raw'' \<notin> ?names"
      and x4: "map_of sd (x @ ''_raw'') = Some v" and x5: "map_of sd x = None"
      and x6: "\<forall>k \<in> set (map fst sd). k \<in> ?names \<or> k @ ''_raw'' \<noteq> x" using x by simp_all
    have r1: "?R (x @ ''_raw'') = Some v" using x3 x4 unfolding rename_spec_def by (simp del: set_map)
    have r2: "?R x = None" using x1 x5 x6 unfolding rename_spec_def by (auto simp del: set_map)
    have "fst (load_ner_model own sd True) = Some StrictKeyError"
      using x1 r2 by (auto simp: load_ner_model_char[OF d] simp del: set_map)
    then show ?thesis using r1 r2 by blast
  qed
  show ?thesis using s' fwd bwd by (simp del: set_map)
qed

theorem rename_is_one_directional_witness:
  "distinct (map fst ckpt0) \<and> distinct (map fst ckpt2)
   \<and> (\<exists>sd'. rename_loop (set (map fst (state_dict net0))) (map fst ckpt0) ckpt0 = Inr sd'
          \<and> map_of sd' ''lstm.w_raw'' = Some 21 \<and> map_of sd' ''lstm.w'' = None)
   \<and> (\<exists>sd'. rename_loop (set (map fst [(''w'', 0::nat)])) (map fst ckpt2) ckpt2 = Inr sd'
          \<and> map_of sd' ''w_raw'' = Some 5 \<and> map_of sd' ''w'' = None)
   \<and> fst (load_ner_model [(''w'', 0)] ckpt2 True) = Some StrictKeyError"
proof -
  have d0: "distinct (map fst ckpt0)" and d2: "distinct (map fst ckpt2)"
    by (simp_all add: ckpt0_def ckpt2_def)
  have h0: "''lstm.w'' \<in> set (map fst ckpt0) \<and> ''lstm.w'' \<notin> set (map fst (state_dict net0))
      \<and> ''lstm.w'' @ ''_raw'' \<in> set (map fst (state_dict net0))
      \<and> map_of ckpt0 (''lstm.w'' @ ''_raw'') = None"
    by (simp add: net0_def ckpt0_def)
  from rename_is_one_directional[OF d0, of "state_dict net0"] h0
  obtain sd' where a: "rename_loop (set (map fst (state_dict net0))) (map fst ckpt0) ckpt0 = Inr sd'"
      "map_of sd' (''lstm.w'' @ ''_raw'') = map_of ckpt0 ''lstm.w''" "map_of sd' ''lstm.w'' = None"
    by blast
  have a2: "map_of sd' ''lstm.w_raw'' = Some 21" using a(2) by (simp add: ckpt0_def)
  have h2: "''w'' \<in> set (map fst [(''w'', 0::nat)]) \<and> ''w'' @ ''_raw'' \<notin> set (map fst [(''w'', 0::nat)])
              \<and> ''w'' @ ''_raw'' @ ''_raw'' \<notin> set (map fst [(''w'', 0::nat)])
              \<and> map_of ckpt2 (''w'' @ ''_raw'') = Some 5 \<and> map_of ckpt2 ''w'' = None
              \<and> (\<forall>k \<in> set (map fst ckpt2). k \<in> set (map fst [(''w'', 0::nat)]) \<or> k @ ''_raw'' \<noteq> ''w'')"
    by (simp add: ckpt2_def)
  from rename_is_one_directional[OF d2, of "[(''w'', 0::nat)]" "''w''" 5] h2
  have b: "(\<exists>sd'. rename_loop (set (map fst [(''w'', 0::nat)])) (map fst ckpt2) ckpt2 = Inr sd'
                    \<and> map_of sd' (''w'' @ ''_raw'') = Some 5 \<and> map_of sd' ''w'' = None)
                \<and> fst (load_ner_model [(''w'', 0)] ckpt2 True) = Some StrictKeyError"
    by blast
  show ?thesis using d0 d2 a(1,3) a2 b by auto
qed

text \<open>
  C5 as stated fails: a checkpoint with \<open>w_raw\<close> does not load into a live model with \<open>w\<close>.
\<close>

theorem rename_reverse_direction_counterexample:
  "load_ner_model [(''w'', 0::nat)] [(''w_raw'', 5)] True = (Some StrictKeyError, [(''w'', 0)])"
  by (simp add: load_ner_model_def rename_step_def load_state_dict_def)


section \<open>Theorems: freezing\<close>

lemma length_freeze_to: "length (freeze_to n c) = length c"
  by (simp add: freeze_to_def Let_def slice_start_def)

lemma group_name_freeze_to: "map group_name (freeze_to n c) = map group_name c"
proof -
  let ?k = "slice_start n (length c)"
  have "map group_name (freeze_to n c) = take ?k (map group_name c) @ drop ?k (map group_name c)"
    by (simp add: freeze_to_def Let_def set_trainable_def take_map drop_map comp_def)
  then show ?thesis by simp
qed

lemma trainable_freeze_to:
  assumes "i < length c"
  shows "trainable (freeze_to n c ! i) = (slice_start n (length c) \<le> i)"
proof -
  let ?k = "slice_start n (length c)"
  have k: "?k \<le> length c" by (auto simp: slice_start_def)
  show ?thesis
  proof (cases "i < ?k")
    case True
    then show ?thesis using assms k
      by (simp add: freeze_to_def Let_def nth_append set_trainable_def)
  next
    case False
    then show ?thesis using assms k
      by (simp add: freeze_to_def Let_def nth_append set_trainable_def)
  qed
qed

lemma slice_start_le_iff:
  "i < len \<Longrightarrow> (slice_start n len \<le> i) = (if 0 \<le> n then n \<le> int i else int len + n \<le> int i)"
  by (auto simp: slice_start_def)

text \<open>
  C6 (amended). \<open>freeze_to(n)\<close> keeps the groups and their order. For \<open>n \<ge> 0\<close> the groups
  with index in \<open>[0, n)\<close> are non-trainable and those in \<open>[n, end)\<close> are trainable; a
  negative \<open>n\<close> counts from the end, so that the groups from index \<open>len + n\<close> on are
  the trainable ones. \<open>unfreeze()\<close> is \<open>freeze_to(0)\<close>, and for every \<open>n\<close>,
  \<open>freeze_to(n)\<close> followed by \<open>unfreeze()\<close> leaves every group trainable.
\<close>

theorem freeze_to_trainable:
  "length (freeze_to n c) = length c
   \<and> map group_name (freeze_to n c) = map group_name c
   \<and> (\<forall>i < length c. trainable (freeze_to n c ! i)
          = (if 0 \<le> n then n \<le> int i else int (length c) + n \<le> int i))
   \<and> unfreeze c = freeze_to 0 c
   \<and> (\<forall>g \<in> set (unfreeze (freeze_to n c)). trainable g)"
proof -
  have 3: "\<forall>i < length c. trainable (freeze_to n c ! i)
          = (if 0 \<le> n then n \<le> int i else int (length c) + n \<le> int i)"
    by (simp add: trainable_freeze_to slice_start_le_iff)
  have 5: "\<forall>g \<in> set (unfreeze (freeze_to n c)). trainable g"
  proof
    fix g assume "g \<in> set (unfreeze (freeze_to n c))"
    then obtain i where i: "i < length (unfreeze (freeze_to n c))" "g = unfreeze (freeze_to n c) ! i"
      by (metis in_set_conv_nth)
    then have "i < length (freeze_to n c)" by (simp add: unfreeze_def length_freeze_to)
    then have "trainable (freeze_to 0 (freeze_to n c) ! i)"
      by (simp add: trainable_freeze_to slice_start_def)
    then show "trainable g" using i(2) by (simp add: unfreeze_def)
  qed
  show ?thesis using 3 5 by (simp add: length_freeze_to group_name_freeze_to unfreeze_def)
qed

theorem freeze_to_trainable_witness:
  "length (freeze_to 1 (children net0)) = 3
   \<and> \<not> trainable (freeze_to 1 (children net0) ! 0)
   \<and> trainable (freeze_to 1 (children net0) ! 1)
   \<and> trainable (freeze_to 1 (children net0) ! 2)
   \<and> \<not> trainable (freeze_to (- 1) (children net0) ! 1)
   \<and> trainable (freeze_to (- 1) (children net0) ! 2)
   \<and> trainable (hd (unfreeze (freeze_to 1 (children net0))))"
proof -
  have l: "length (children net0) = 3" by (simp add: net0_def)
  note T = freeze_to_trainable[of 1 "children net0"]
  note N = freeze_to_trainable[of "- 1" "children net0"]
  from T have a: "\<forall>i < length (children net0). trainable (freeze_to 1 (children net0) ! i)
          = (if (0::int) \<le> 1 then 1 \<le> int i else int (length (children net0)) + 1 \<le> int i)"
    by blast
  from N have b: "\<forall>i < length (children net0). trainable (freeze_to (- 1) (children net0) ! i)
          = (if (0::int) \<le> - 1 then - 1 \<le> int i else int (length (children net0)) + - 1 \<le> int i)"
    by blast
  have 0: "\<not> trainable (freeze_to 1 (children net0) ! 0)" using a[rule_format, of 0] l by simp
  have 1: "trainable (freeze_to 1 (children net0) ! 1)" using a[rule_format, of 1] l by simp
  have 2: "trainable (freeze_to 1 (children net0) ! 2)" using a[rule_format, of 2] l by simp
  have 3: "\<not> trainable (freeze_to (- 1) (children net0) ! 1)" using b[rule_format, of 1] l by simp
  have 4: "trainable (freeze_to (- 1) (children net0) ! 2)" using b[rule_format, of 2] l by simp
  have len: "length (unfreeze (freeze_to 1 (children net0))) = 3"
    using T l by (simp add: unfreeze_def length_freeze_to)
  then have "hd (unfreeze (freeze_to 1 (children net0))) \<in> set (unfreeze (freeze_to 1 (children net0)))"
    by (intro hd_in_set) auto
  with T have 5: "trainable (hd (unfreeze (freeze_to 1 (children net0))))" by blast
  show ?thesis using T l 0 1 2 3 4 5 by simp
qed

text \<open>
  C6 as stated ("for every \<open>n\<close>") fails for a negative \<open>n\<close>: \<open>freeze_to(-1)\<close> on three
  groups leaves only the last one trainable, although every index is in \<open>[-1, end)\<close>.
\<close>

theorem freeze_to_negative_counterexample:
  "map trainable (freeze_to (- 1) (children net0)) = [False, False, True]"
  by (simp add: freeze_to_def net0_def slice_start_def set_trainable_def)


section \<open>Theorems: fine-tuning\<close>

lemma fit_without_data: "fit ex s None None epochs ft = (Some TypeError, s)"
  by (simp add: fit_def)

text \<open>
  C7 (the code departs from the claim). \<open>fine_tune()\<close> calls \<open>fit\<close> without the two
  data sets that \<open>fit\<close> requires, so the call raises \<open>TypeError\<close> after the log line:
  no epoch runs, the network is unchanged and nothing is saved.
\<close>

theorem fine_tune_raises_type_error:
  "fst (fine_tune ex s) = Some TypeError
   \<and> model (snd (fine_tune ex s)) = model s
   \<and> disk (snd (fine_tune ex s)) = disk s
   \<and> logger (snd (fine_tune ex s)) = logger s @ [Fine_tuning_model]"
  by (simp add: fine_tune_def fit_without_data info_def)


text \<open>
  What the claim describes is what \<open>fit\<close> does when it is given the data sets with
  \<open>epochs=1\<close> and \<open>fine_tune=True\<close>: one epoch, then a save under \<open>ner_ft_path\<close>.
\<close>

lemma fit_fine_tune_example:
  "fst (fit ex0 learner0 (Some ()) (Some ()) (Some 1) True) = None
   \<and> map fst (disk (snd (fit ex0 learner0 (Some ()) (Some ()) (Some 1) True))) = [''results/ner_ft.h5'']
   \<and> map fst (disk (snd (fit ex0 learner0 (Some ()) (Some ()) (Some 1) False))) = [''results/ner.h5'']"
  by code_simp

section \<open>Theorems: hosts without a CUDA device\<close>

text \<open>
  C8 (the code departs from the claim). On a host without a CUDA device the
  constructor logs the fallback and then raises, because the criterion is moved to the
  device unconditionally (with a device it returns normally); \<open>create_mask\<close> raises for
  every input for the same reason, and with it every training and evaluation batch.
\<close>

theorem no_cuda_raises:
  "fst (init (ex\<lparr>cuda_available := False\<rparr>) cfg m dsk) = Some CudaError
   \<and> logger (snd (init (ex\<lparr>cuda_available := False\<rparr>) cfg m dsk)) = [No_GPU_found]
   \<and> fst (init (ex\<lparr>cuda_available := True\<rparr>) cfg m dsk) = None
   \<and> create_mask False sls t bf = Inl CudaError
   \<and> fst (train_batch (ex\<lparr>cuda_available := False\<rparr>) (learner0, 0, 0) batch0) = Some CudaError
   \<and> fst (test_batch (ex\<lparr>cuda_available := False\<rparr>) (learner0, eval_acc0) (0, batch0)) = Some CudaError"
  by (simp add: init_def cuda_def info_def create_mask_def train_batch_def test_batch_def
      batch0_def of_rows_def Let_def)



section \<open>Theorems: the training-mode flag\<close>

lemma model_test: "model (snd (test ex s nb gen ft)) = (model s)\<lparr>training := False\<rparr>"
proof -
  let ?s1 = "s\<lparr>model := (model s)\<lparr>training := False\<rparr>\<rparr>"
  let ?ibs = "enumerate 0 (map gen [0..<nb])"
  obtain e s2 st where r: "test_loop ex (?s1, eval_acc0) ?ibs = (e, (s2, st))" by (metis surj_pair)
  have m: "model s2 = (model s)\<lparr>training := False\<rparr>"
    using model_test_loop[of ex "(?s1, eval_acc0)" ?ibs] r by simp
  show ?thesis
    by (cases e) (simp_all add: test_def Let_def r m info_def split: sum.splits option.splits prod.splits)
qed

lemma model_predict_batch: "model (snd (predict_batch ex enc s ws)) = (model s)\<lparr>training := False\<rparr>"
  by (simp add: predict_batch_def Let_def split: list.splits)

lemma model_predict:
  "words_raw \<noteq> [] \<Longrightarrow> model (snd (predict ex enc pw s words_raw)) = (model s)\<lparr>training := False\<rparr>"
proof -
  assume ne: "words_raw \<noteq> []"
  obtain r s' where p: "predict_batch ex enc s [map pw words_raw] = (r, s')" by (metis surj_pair)
  have "model s' = (model s)\<lparr>training := False\<rparr>"
    using model_predict_batch[of ex enc s "[map pw words_raw]"] p by simp
  then show ?thesis using ne by (cases r) (simp_all add: predict_def Let_def p)
qed

lemma flags_train_batch:
  "training (model (fst (snd (train_batch ex (s, c, t) b)))) = training (model s)
   \<and> emb_requires_grad (model (fst (snd (train_batch ex (s, c, t) b)))) = emb_requires_grad (model s)"
  by (simp add: train_batch_def Let_def info_def optimizer_step_def split: option.splits sum.splits)

lemma flags_train_loop:
  "training (model (fst (snd (train_loop ex acc bs)))) = training (model (fst acc))
   \<and> emb_requires_grad (model (fst (snd (train_loop ex acc bs)))) = emb_requires_grad (model (fst acc))"
proof (induction bs arbitrary: acc)
  case Nil
  then show ?case by simp
next
  case (Cons b bs)
  obtain s c t where acc: "acc = (s, c, t)" by (metis surj_pair)
  obtain e s' c' t' where r: "train_batch ex (s, c, t) b = (e, (s', c', t'))" by (metis surj_pair)
  have m: "training (model s') = training (model s)" "emb_requires_grad (model s') = emb_requires_grad (model s)"
    using flags_train_batch[of ex s c t b] r by simp_all
  show ?case
  proof (cases e)
    case None
    then show ?thesis using Cons.IH[of "(s', c', t')"] acc r m by simp
  next
    case (Some a)
    then show ?thesis using acc r m by simp
  qed
qed

lemma flags_train:
  "training (model (snd (train ex s ep nb gen ft)))
   \<and> \<not> emb_requires_grad (model (snd (train ex s ep nb gen ft)))"
proof -
  let ?s1 = "info (Epoch ep) s"
  let ?s2 = "?s1\<lparr>model := (model ?s1)\<lparr>training := True\<rparr>\<rparr>"
  let ?s3 = "?s2\<lparr>model := (model ?s2)\<lparr>emb_requires_grad := False\<rparr>\<rparr>"
  obtain e s4 c t where r: "train_loop ex (?s3, 0, 0) (map gen [0..<nb]) = (e, (s4, c, t))"
    by (metis surj_pair)
  have m: "training (model s4)" "\<not> emb_requires_grad (model s4)"
    using flags_train_loop[of ex "(?s3, 0, 0)" "map gen [0..<nb]"] r by simp_all
  have "snd (train ex s ep nb gen ft) = s4 \<or> (\<exists>ev. snd (train ex s ep nb gen ft) = info ev s4)"
    unfolding train_def Let_def r by (cases e) auto
  moreover have "model (info ev s4) = model s4" for ev by (simp add: info_def)
  ultimately show ?thesis using m by auto
qed


lemma model_evaluate:
  "batch_size (config s) \<noteq> 0 \<Longrightarrow> model (snd (evaluate ex s d)) = (model s)\<lparr>training := False\<rparr>"
  by (simp add: evaluate_def batch_iter_def model_test info_def)

text \<open>
  C9 (amended). \<open>test\<close>, \<open>evaluate\<close>, \<open>predict_batch\<close> and \<open>predict\<close> leave the network as
  it was (state dict, \<open>requires_grad\<close>, children) except for the training-mode flag,
  which they switch off at their start and do not restore, whether they raise or not.
  \<open>train\<close> switches the flag on at its own start, so an epoch that follows an
  evaluation runs in training mode.
\<close>

theorem evaluation_leaves_inference_mode:
  "model (snd (test ex s nb gen ft)) = (model s)\<lparr>training := False\<rparr>
   \<and> (batch_size (config s) \<noteq> 0 \<longrightarrow> model (snd (evaluate ex s d)) = (model s)\<lparr>training := False\<rparr>)
   \<and> model (snd (predict_batch ex enc s ws)) = (model s)\<lparr>training := False\<rparr>
   \<and> (words_raw \<noteq> [] \<longrightarrow>
        model (snd (predict ex enc' pw s words_raw)) = (model s)\<lparr>training := False\<rparr>)
   \<and> training (model (snd (train ex s ep nb gen ft)))"
  using model_test[of ex s nb gen ft] model_evaluate[of s ex d] model_predict_batch[of ex enc s ws]
    model_predict[of words_raw ex enc' pw s] flags_train[of ex s ep nb gen ft]
  by blast

theorem evaluation_leaves_inference_mode_witness:
  "batch_size (config learner0) \<noteq> 0 \<and> [''Paris''] \<noteq> []
   \<and> training (model learner0)
   \<and> \<not> training (model (snd (test ex0 learner0 1 (\<lambda>i. batch0) False)))
   \<and> \<not> training (model (snd (evaluate ex0 learner0 ())))
   \<and> \<not> training (model (snd (predict ex0 (\<lambda>bs ws. (of_rows 2 1 [[1], [1]], [])) (\<lambda>w. (0::nat)) learner0 [''Paris''])))
   \<and> state_dict (model (snd (test ex0 learner0 1 (\<lambda>i. batch0) False))) = state_dict (model learner0)
   \<and> training (model (snd (train ex0 (snd (test ex0 learner0 1 (\<lambda>i. batch0) False)) 0 1 (\<lambda>i. batch0) False)))"
proof -
  have h: "batch_size (config learner0) \<noteq> 0" "[''Paris''] \<noteq> []" "training (model learner0)"
    by (simp_all add: learner0_def config0_def net0_def)
  note T = evaluation_leaves_inference_mode[of ex0 learner0 1 "\<lambda>i. batch0" False "()"
      "\<lambda>bs ws. (of_rows 2 1 [[1], [1]], [])" "[[0::nat]]" "[''Paris'']"
      "\<lambda>bs ws. (of_rows 2 1 [[1], [1]], [])" "\<lambda>w. (0::nat)" 0]
  note T2 = evaluation_leaves_inference_mode[of ex0 "snd (test ex0 learner0 1 (\<lambda>i. batch0) False)"
      1 "\<lambda>i. batch0" False "()" "\<lambda>bs ws. (of_rows 2 1 [[1], [1]], [])" "[[0::nat]]" "[''Paris'']"
      "\<lambda>bs ws. (of_rows 2 1 [[1], [1]], [])" "\<lambda>w. (0::nat)" 0]
  from T h have a: "model (snd (test ex0 learner0 1 (\<lambda>i. batch0) False)) = (model learner0)\<lparr>training := False\<rparr>"
    "model (snd (evaluate ex0 learner0 ())) = (model learner0)\<lparr>training := False\<rparr>"
    "model (snd (predict ex0 (\<lambda>bs ws. (of_rows 2 1 [[1], [1]], [])) (\<lambda>w. (0::nat)) learner0 [''Paris'']))
       = (model learner0)\<lparr>training := False\<rparr>"
    by blast+
  from T2 have b: "training (model (snd (train ex0 (snd (test ex0 learner0 1 (\<lambda>i. batch0) False)) 0 1 (\<lambda>i. batch0) False)))"
    by blast
  show ?thesis using h a b by simp
qed

text \<open>
  C9 as stated fails: after a run of \<open>test\<close> that completes on a network in training
  mode, the flag is off.
\<close>

theorem evaluation_does_not_restore_mode_counterexample:
  "training (model learner0)
   \<and> fst (test ex0 learner0 1 (\<lambda>i. batch0) False) = None
   \<and> \<not> training (model (snd (test ex0 learner0 1 (\<lambda>i. batch0) False)))"
proof -
  have "training (model learner0)" by (simp add: learner0_def net0_def)
  moreover have "fst (test ex0 learner0 1 (\<lambda>i. batch0) False) = None" by code_simp
  moreover have "\<not> training (model (snd (test ex0 learner0 1 (\<lambda>i. batch0) False)))"
    by (simp add: model_test)
  ultimately show ?thesis by blast
qed


section \<open>Theorems: the embedding weights during training\<close>

lemma map_of_map_keyed:
  "map_of (map (\<lambda>(n, v). (n, f n v)) xs) k = map_option (f k) (map_of xs k)"
  by (induction xs) auto

lemma emb_optimizer_step:
  "\<not> emb_requires_grad m \<Longrightarrow>
   map_of (state_dict (optimizer_step ex m out tg k)) ''emb.weight'' = map_of (state_dict m) ''emb.weight''"
  by (simp add: optimizer_step_def map_of_map_keyed option.map_ident)

lemma emb_train_batch:
  assumes "\<not> emb_requires_grad (model s)"
  shows "map_of (state_dict (model (fst (snd (train_batch ex (s, c, t) b))))) ''emb.weight''
           = map_of (state_dict (model s)) ''emb.weight''"
  using assms
  by (simp add: train_batch_def Let_def info_def emb_optimizer_step split: option.splits sum.splits)

lemma emb_train_loop:
  "\<not> emb_requires_grad (model (fst acc)) \<Longrightarrow>
   map_of (state_dict (model (fst (snd (train_loop ex acc bs))))) ''emb.weight''
     = map_of (state_dict (model (fst acc))) ''emb.weight''"
proof (induction bs arbitrary: acc)
  case Nil
  then show ?case by simp
next
  case (Cons b bs)
  obtain s c t where acc: "acc = (s, c, t)" by (metis surj_pair)
  obtain e s' c' t' where r: "train_batch ex (s, c, t) b = (e, (s', c', t'))" by (metis surj_pair)
  have g: "\<not> emb_requires_grad (model s)" using Cons.prems acc by simp
  have m: "\<not> emb_requires_grad (model s')" using flags_train_batch[of ex s c t b] r g by simp
  have w: "map_of (state_dict (model s')) ''emb.weight'' = map_of (state_dict (model s)) ''emb.weight''"
    using emb_train_batch[OF g, of ex c t b] r by simp
  show ?case
  proof (cases e)
    case None
    then show ?thesis using Cons.IH[of "(s', c', t')"] acc r m w by simp
  next
    case (Some a)
    then show ?thesis using acc r w by simp
  qed
qed

lemma emb_train:
  "map_of (state_dict (model (snd (train ex s ep nb gen ft)))) ''emb.weight''
     = map_of (state_dict (model s)) ''emb.weight''"
proof -
  let ?s1 = "info (Epoch ep) s"
  let ?s2 = "?s1\<lparr>model := (model ?s1)\<lparr>training := True\<rparr>\<rparr>"
  let ?s3 = "?s2\<lparr>model := (model ?s2)\<lparr>emb_requires_grad := False\<rparr>\<rparr>"
  obtain e s4 c t where r: "train_loop ex (?s3, 0, 0) (map gen [0..<nb]) = (e, (s4, c, t))"
    by (metis surj_pair)
  have "map_of (state_dict (model s4)) ''emb.weight'' = map_of (state_dict (model ?s3)) ''emb.weight''"
    using emb_train_loop[of "(?s3, 0, 0)" ex "map gen [0..<nb]"] r by simp
  then have m: "map_of (state_dict (model s4)) ''emb.weight'' = map_of (state_dict (model s)) ''emb.weight''"
    by (simp add: info_def)
  have "snd (train ex s ep nb gen ft) = s4 \<or> (\<exists>ev. snd (train ex s ep nb gen ft) = info ev s4)"
    unfolding train_def Let_def r by (cases e) auto
  moreover have "model (info ev s4) = model s4" for ev by (simp add: info_def)
  ultimately show ?thesis using m by auto
qed

text \<open>
  C10. Every call of \<open>train\<close>, with or without \<open>fine_tune\<close>, switches \<open>requires_grad\<close> of
  the embedding weight off before its loop, and no iteration switches it on again. So
  every optimizer step of the loop leaves the embedding weight as it is, and after
  \<open>train\<close> (whether it completes or raises) the embedding weight is the one from before
  the call and the flag is off.
\<close>

theorem train_never_updates_embedding:
  "map_of (state_dict (model (snd (train ex s ep nb gen ft)))) ''emb.weight''
     = map_of (state_dict (model s)) ''emb.weight''
   \<and> \<not> emb_requires_grad (model (snd (train ex s ep nb gen ft)))
   \<and> (\<not> emb_requires_grad (model s1) \<longrightarrow>
         map_of (state_dict (model (fst (snd (train_batch ex (s1, c, t) b))))) ''emb.weight''
           = map_of (state_dict (model s1)) ''emb.weight''
         \<and> \<not> emb_requires_grad (model (fst (snd (train_batch ex (s1, c, t) b)))))
   \<and> (\<not> emb_requires_grad m \<longrightarrow>
         map_of (state_dict (optimizer_step ex m out tg k)) ''emb.weight''
           = map_of (state_dict m) ''emb.weight'')"
  using emb_train[of ex s ep nb gen ft] flags_train[of ex s ep nb gen ft]
    emb_train_batch[of s1 ex c t b] flags_train_batch[of ex s1 c t b]
    emb_optimizer_step[of m ex out tg k]
  by blast

theorem train_never_updates_embedding_witness:
  "emb_requires_grad (model learner0)
   \<and> fst (train ex0 learner0 0 1 (\<lambda>i. batch0) True) = None
   \<and> fst (train ex0 learner0 0 1 (\<lambda>i. batch0) False) = None
   \<and> state_dict (model (snd (train ex0 learner0 0 1 (\<lambda>i. batch0) False)))
       = [(''emb.weight'', 10), (''lstm.w_raw'', 21), (''fc.bias'', 31)]
   \<and> map_of (state_dict (model (snd (train ex0 learner0 0 1 (\<lambda>i. batch0) False)))) ''emb.weight''
       = map_of (state_dict (model learner0)) ''emb.weight''
   \<and> \<not> emb_requires_grad (model (snd (train ex0 learner0 0 1 (\<lambda>i. batch0) False)))"
proof -
  have 1: "emb_requires_grad (model learner0)" by (simp add: learner0_def net0_def)
  have 2: "fst (train ex0 learner0 0 1 (\<lambda>i. batch0) True) = None"
    "fst (train ex0 learner0 0 1 (\<lambda>i. batch0) False) = None" by code_simp+
  have 3: "state_dict (model (snd (train ex0 learner0 0 1 (\<lambda>i. batch0) False)))
       = [(''emb.weight'', 10), (''lstm.w_raw'', 21), (''fc.bias'', 31)]" by code_simp
  show ?thesis
    using 1 2 3 train_never_updates_embedding[of ex0 learner0 0 1 "\<lambda>i. batch0" False]
    by blast
qed


end
